theory Spec2Isabelle
  imports Main "HOL-Library.Sublist"
begin

section \<open>autobisectjs: labels, oracles, the bisection loop and the merge-blame check\<close>

text \<open>
  A shallow embedding of \<^verbatim>\<open>src/funfuzz/autobisectjs/autobisectjs.py\<close>.
  A label is the pair the Python code passes around, \<^verbatim>\<open>(verdict, reason)\<close>, with the
  verdict one of the strings \<^verbatim>\<open>"good"\<close>, \<^verbatim>\<open>"bad"\<close>, \<^verbatim>\<open>"skip"\<close>.
  Logging calls have no effect on any value and are left out.
\<close>

subsection \<open>Python string and integer helpers\<close>

type_synonym label = "string \<times> string"

text \<open>
  \<^verbatim>\<open>s.find(sub)\<close>: the lowest index at which \<^verbatim>\<open>sub\<close> occurs in \<^verbatim>\<open>s\<close>, or -1.
  The empty string occurs at index 0 of every string.
\<close>

fun find_at :: "string \<Rightarrow> string \<Rightarrow> int \<Rightarrow> int" where
  "find_at sub [] i = (if sub = [] then i else - 1)"
| "find_at sub (c # cs) i = (if prefix sub (c # cs) then i else find_at sub cs (i + 1))"

definition str_find :: "string \<Rightarrow> string \<Rightarrow> int" where
  "str_find s sub = find_at sub s 0"

text \<open>\<^verbatim>\<open>str(n)\<close> for a Python integer: decimal digits, with a leading minus sign.\<close>

definition digit_char :: "nat \<Rightarrow> char" where
  "digit_char d = ''0123456789'' ! d"

function str_nat :: "nat \<Rightarrow> string" where
  "str_nat n = (if n < 10 then [digit_char n] else str_nat (n div 10) @ [digit_char (n mod 10)])"
  by pat_completeness auto
termination
  by (relation "measure id") auto

declare str_nat.simps [simp del]

definition str :: "int \<Rightarrow> string" where
  "str i = (if i < 0 then CHR ''-'' # str_nat (nat (- i)) else str_nat (nat i))"

subsection \<open>Options\<close>

text \<open>
  The fields of \<^verbatim>\<open>options\<close> that the functions below read.
  \<^verbatim>\<open>options.build_options\<close> is the object \<^verbatim>\<open>parse_shell_opts\<close> returns: an object is truthy,
  so the test \<^verbatim>\<open>if options.build_options:\<close> always takes its branch.
\<close>

record build_options_t =
  repo_dir :: string
  runWithVg :: bool

record options =
  "output" :: string
  watchExitCode :: "int option"
  runtime_params :: "string list"
  build_options :: build_options_t
  testInitialRevs :: bool

subsection \<open>internalTestAndLabel\<close>

text \<open>
  \<^verbatim>\<open>inspect_shell.testBinary\<close> runs the shell and returns the combined output and the
  exit code; it is a collaborator outside this file and is taken as a parameter.
  The body is the \<^verbatim>\<open>if/elif\<close> chain of \<^verbatim>\<open>inner\<close>, in the source's order.
\<close>

definition internalTestAndLabel ::
  "(string \<Rightarrow> string list \<Rightarrow> bool \<Rightarrow> string \<times> int) \<Rightarrow> options \<Rightarrow> string \<Rightarrow> string \<Rightarrow> label" where
  "internalTestAndLabel testBinary opts shellFilename hgHash =
    (let (stdoutStderr, exitCode) =
           testBinary shellFilename (runtime_params opts) (runWithVg (build_options opts))
     in
     if str_find stdoutStderr (output opts) \<noteq> - 1 \<and> output opts \<noteq> '''' then
       (''bad'', ''Specified-bad output'')
     else if watchExitCode opts \<noteq> None \<and> Some exitCode = watchExitCode opts then
       (''bad'', ''Specified-bad exit code '' @ str exitCode)
     else if watchExitCode opts = None \<and> 129 \<le> exitCode \<and> exitCode \<le> 159 then
       (''bad'', ''High exit code '' @ str exitCode)
     else if exitCode < 0 then
       (if watchExitCode opts \<noteq> None \<and> Some (128 - exitCode) = watchExitCode opts then
          (''bad'', ''Specified-bad exit code '' @ str exitCode @ '' (after converting to signal)'')
        else if str_find stdoutStderr (output opts) = - 1 \<and> output opts \<noteq> '''' then
          (''good'', ''Bad output, but not the specified one'')
        else if watchExitCode opts \<noteq> None \<and> Some (128 - exitCode) \<noteq> watchExitCode opts then
          (''good'', ''Negative exit code, but not the specified one'')
        else (''bad'', ''Negative exit code '' @ str exitCode))
     else if exitCode = 0 then
       (''good'', ''Exit code 0'')
     else if (exitCode = 1 \<or> exitCode = 2) \<and> output opts \<noteq> '''' \<and>
             (str_find stdoutStderr ''usage: js ['' \<noteq> - 1 \<or>
              str_find stdoutStderr ''Error: Short option followed by junk'' \<noteq> - 1 \<or>
              str_find stdoutStderr ''Error: Invalid long option:'' \<noteq> - 1 \<or>
              str_find stdoutStderr ''Error: Invalid short option:'' \<noteq> - 1) then
       (''good'', ''Exit code 1 or 2 - js shell quits because it does not support a given CLI parameter'')
     else if 3 \<le> exitCode \<and> exitCode \<le> 6 then
       (''good'', ''Acceptable exit code '' @ str exitCode)
     else if watchExitCode opts \<noteq> None then
       (''good'', ''Unknown exit code '' @ str exitCode @ '', but not the specified one'')
     else (''bad'', ''Unknown exit code '' @ str exitCode))"

subsection \<open>Exceptions\<close>

text \<open>
  Every raise of the source is a value: a function that can raise returns
  \<open>error + 'a\<close> (with \<open>Inl\<close> the exception) next to the state it leaves behind.
  \<open>ExternalError\<close> stands for whatever a collaborator (the oracle, the interestingness
  predicate, a subprocess) raises.
\<close>

datatype error =
    AssertionError
  | IndexError
  | KeyError string
  | Exception string
  | ExternalError string

subsection \<open>externalTestAndLabel\<close>

text \<open>
  The file system, as far as this function touches it: the set of paths that are
  directories. \<^verbatim>\<open>tempfile.mkdtemp(prefix=p)\<close> creates a directory whose name is the
  temporary root, the prefix and a suffix the library picks (\<open>sfx\<close>, an input here),
  and returns its path.
\<close>

type_synonym fs = "string set"

definition mkdtemp :: "string \<Rightarrow> string \<Rightarrow> fs \<Rightarrow> string \<times> fs" where
  "mkdtemp sfx pre fs = (let d = ''/tmp/'' @ pre @ sfx in (d, insert d fs))"

definition is_dir :: "string \<Rightarrow> fs \<Rightarrow> bool" where
  "is_dir d fs = (d \<in> fs)"

text \<open>
  Modelled from the spec: \<^verbatim>\<open>sps.rm_tree_incl_readonly\<close> (module
  \<^verbatim>\<open>funfuzz.util.subprocesses\<close>) is not among the source files. The spec has the
  temporary-output directory "removed": the directory and everything below it are gone.
\<close>

definition rm_tree_incl_readonly :: "string \<Rightarrow> fs \<Rightarrow> fs" where
  "rm_tree_incl_readonly d fs = {p \<in> fs. p \<noteq> d \<and> \<not> prefix (d @ ''/'') p}"

text \<open>
  The imported interestingness module: \<open>init\<close> is \<open>None\<close> when the module has no
  attribute \<^verbatim>\<open>init\<close>. Both functions may change the file system and may raise.
\<close>

record condition_script =
  init :: "(string list \<Rightarrow> fs \<Rightarrow> (error + unit) \<times> fs) option"
  interesting :: "string list \<Rightarrow> string \<Rightarrow> fs \<Rightarrow> (error + bool) \<times> fs"

text \<open>
  \<^verbatim>\<open>externalTestAndLabel(options, interestingness)(shellFilename, hgHash)\<close>: the outer
  function and one call of the \<^verbatim>\<open>inner\<close> it returns. \<^verbatim>\<open>rel_or_abs_import\<close> (lithium)
  is a parameter. The source has no \<^verbatim>\<open>try\<close>: an exception of \<^verbatim>\<open>init\<close> or
  \<^verbatim>\<open>interesting\<close> leaves \<^verbatim>\<open>inner\<close> at once.
\<close>

definition externalTestAndLabel ::
  "(string \<Rightarrow> condition_script) \<Rightarrow> options \<Rightarrow> string list \<Rightarrow> string \<Rightarrow>
   string \<Rightarrow> string \<Rightarrow> fs \<Rightarrow> (error + label) \<times> fs" where
  "externalTestAndLabel rel_or_abs_import opts interestingness sfx shellFilename hgHash fs =
    (case interestingness of
       [] \<Rightarrow> (Inl IndexError, fs)
     | i0 # conditionArgPrefix \<Rightarrow>
        (let conditionScript = rel_or_abs_import i0;
             conditionArgs = conditionArgPrefix @ [shellFilename] @ runtime_params opts;
             (temp_dir, fs1) = mkdtemp sfx (''abExtTestAndLabel-'' @ hgHash) fs;
             temp_prefix = temp_dir @ ''/t''
         in
         case (case init conditionScript of
                 None \<Rightarrow> (Inr (), fs1)
               | Some f \<Rightarrow> f conditionArgs fs1) of
           (Inl e, fs2) \<Rightarrow> (Inl e, fs2)
         | (Inr u, fs2) \<Rightarrow>
            (case interesting conditionScript conditionArgs temp_prefix fs2 of
               (Inl e, fs3) \<Rightarrow> (Inl e, fs3)
             | (Inr b, fs3) \<Rightarrow>
                (let innerResult = (if b then (''bad'', ''interesting'')
                                    else (''good'', ''not interesting''));
                     fs4 = (if is_dir temp_dir fs3 then rm_tree_incl_readonly temp_dir fs3
                            else fs3)
                 in (Inr innerResult, fs4)))))"

subsection \<open>The outside world of a bisection session\<close>

text \<open>
  \<^verbatim>\<open>s.split(sep)\<close> for a one-character separator: never an empty list.
\<close>

fun split_on :: "char \<Rightarrow> string \<Rightarrow> string list" where
  "split_on c [] = [[]]"
| "split_on c (x # xs) =
     (if x = c then [] # split_on c xs
      else (case split_on c xs of [] \<Rightarrow> [[x]] | l # ls \<Rightarrow> (x # l) # ls))"

text \<open>
  What the session does to its surroundings, in order: the commands it runs
  (\<^verbatim>\<open>subprocess.run\<close>, the whole argument list), the revisions it hands to the oracle
  \<^verbatim>\<open>testRev\<close>, and the calls of \<^verbatim>\<open>hg_helpers.destroyPyc\<close>.
\<close>

datatype event = Run "string list" | TestRev string | DestroyPyc string

type_synonym trace = "event list"

text \<open>
  The collaborators, none of them in this file. Mercurial and the oracle are stateful:
  their answer may depend on everything that happened before, so each takes the trace
  so far. \<open>hg_run\<close> is \<^verbatim>\<open>subprocess.run(..., check=True)\<close>: the decoded standard output,
  or the exception of a failed or timed-out command. \<open>isAncestor env repo a b\<close> is
  \<^verbatim>\<open>hg_helpers.isAncestor(repo_dir, a, b)\<close>, which answers whether \<open>a\<close> is an ancestor
  of \<open>b\<close> (the log message at its call site reads "not a descendant of" for a false answer).
\<close>

record env =
  hg_run :: "trace \<Rightarrow> string list \<Rightarrow> error + string"
  testRev :: "trace \<Rightarrow> string \<Rightarrow> error + label"
  get_cset_hash_from_bisect_msg :: "string \<Rightarrow> string option"
  isAncestor :: "string \<Rightarrow> string \<Rightarrow> string \<Rightarrow> bool"
  findCommonAncestor :: "string \<Rightarrow> string \<Rightarrow> string \<Rightarrow> string"

definition run :: "env \<Rightarrow> string list \<Rightarrow> trace \<Rightarrow> (error + string) \<times> trace" where
  "run env cmd tr = (hg_run env tr cmd, tr @ [Run cmd])"

definition call_testRev :: "env \<Rightarrow> string \<Rightarrow> trace \<Rightarrow> (error + label) \<times> trace" where
  "call_testRev env cset tr = (testRev env tr cset, tr @ [TestRev cset])"

subsection \<open>bisectLabel\<close>

text \<open>
  The two regular expressions, matched at the start of the first output line.
  \<open>match_first\<close> returns \<^verbatim>\<open>m.group(1)\<close>.
\<close>

definition match_ambiguous :: "string \<Rightarrow> bool" where
  "match_ambiguous l =
    (prefix ''Due to skipped revisions, the first good revision could be any of:'' l \<or>
     prefix ''Due to skipped revisions, the first bad revision could be any of:'' l)"

definition match_first :: "string \<Rightarrow> string option" where
  "match_first l =
    (if prefix ''The first good revision is:'' l then Some ''good''
     else if prefix ''The first bad revision is:'' l then Some ''bad''
     else None)"

text \<open>
  The result is the tuple \<^verbatim>\<open>(blamedGoodOrBad, blamedRev, currRev, start, end)\<close> of the
  source, with \<open>None\<close> for Python's \<^verbatim>\<open>None\<close>.
\<close>

type_synonym bisect_result = "string option \<times> string option \<times> string option \<times> string \<times> string"

definition bisectLabel ::
  "env \<Rightarrow> string list \<Rightarrow> options \<Rightarrow> string \<Rightarrow> string \<Rightarrow> string \<Rightarrow> string \<Rightarrow> trace
     \<Rightarrow> (error + bisect_result) \<times> trace" where
  "bisectLabel env hgPrefix opts hgLabel currRev startRepo endRepo tr =
    (if hgLabel \<notin> {''good'', ''bad'', ''skip''} then (Inl AssertionError, tr)
     else
       case run env (hgPrefix @ [''bisect'', ''-U'', ''--'' @ hgLabel, currRev]) tr of
         (Inl e, tr1) \<Rightarrow> (Inl e, tr1)
       | (Inr outputResult, tr1) \<Rightarrow>
          (case split_on (CHR 0x0A) outputResult of
             [] \<Rightarrow> (Inl IndexError, tr1)
           | line0 # others \<Rightarrow>
              if match_ambiguous line0 then (Inr (None, None, None, startRepo, endRepo), tr1)
              else
                (case match_first line0 of
                   Some blamedGoodOrBad \<Rightarrow>
                     (case others of
                        [] \<Rightarrow> (Inl IndexError, tr1)
                      | line1 # rest \<Rightarrow>
                          (Inr (Some blamedGoodOrBad, get_cset_hash_from_bisect_msg env line1,
                                None, startRepo, endRepo), tr1))
                 | None \<Rightarrow>
                     if testInitialRevs opts then
                       (Inr (None, None, None, startRepo, endRepo), tr1)
                     else
                       (case get_cset_hash_from_bisect_msg env line0 of
                          None \<Rightarrow>
                            (case run env (hgPrefix @ [''update'', ''-C'', ''default'']) tr1 of
                               (Inl e, tr2) \<Rightarrow> (Inl e, tr2)
                             | (Inr out2, tr2) \<Rightarrow>
                                 (Inl (Exception ''hg did not suggest a changeset to test!''),
                                  tr2 @ [DestroyPyc (repo_dir (build_options opts))]))
                        | Some cset \<Rightarrow>
                            (let start = (if hgLabel = ''bad'' then startRepo
                                          else if hgLabel = ''good'' then cset
                                          else startRepo);
                                 end = (if hgLabel = ''bad'' then cset else endRepo)
                             in (Inr (None, None, Some cset, start, end), tr1))))))"

subsection \<open>The loop of findBlamedCset\<close>

text \<open>
  The variables the \<^verbatim>\<open>while\<close> loop of \<^verbatim>\<open>findBlamedCset\<close> reads and writes.
  \<open>opts\<close> is there because the loop clears \<^verbatim>\<open>options.testInitialRevs\<close>.
\<close>

record loop_state =
  labels :: "string \<rightharpoonup> label"
  currRev :: "string option"
  sRepo :: string
  eRepo :: string
  skipCount :: nat
  iterNum :: int
  blamedRev :: "string option"
  blamedGoodOrBad :: "string option"
  opts :: options

text \<open>
  Lines 234 to 239: the counters before the first iteration. The label history and the
  first revision to test come from the lines before and are inputs here.
\<close>

definition start_state ::
  "options \<Rightarrow> (string \<rightharpoonup> label) \<Rightarrow> string option \<Rightarrow> string \<Rightarrow> string \<Rightarrow> loop_state" where
  "start_state options labels0 currRev0 sRepo0 eRepo0 =
    \<lparr>labels = labels0, currRev = currRev0, sRepo = sRepo0, eRepo = eRepo0,
     skipCount = 0, iterNum = (if testInitialRevs options then 1 - 2 else 1),
     blamedRev = None, blamedGoodOrBad = None, opts = options\<rparr>"

text \<open>
  One pass through the body of \<^verbatim>\<open>while currRev is not None\<close> (lines 242 to 271), for
  the revision \<open>cset\<close> that \<^verbatim>\<open>currRev\<close> holds: it raises, it leaves the loop by
  \<^verbatim>\<open>break\<close>, or it reaches the end of the body.
\<close>

datatype iteration = Raised error | Broke loop_state | Completed loop_state

definition loop_body ::
  "env \<Rightarrow> string list \<Rightarrow> loop_state \<Rightarrow> string \<Rightarrow> trace \<Rightarrow> iteration \<times> trace" where
  "loop_body env hgPrefix st cset tr =
    (case call_testRev env cset tr of
       (Inl e, tr1) \<Rightarrow> (Raised e, tr1)
     | (Inr label, tr1) \<Rightarrow>
        (let st1 = st\<lparr>labels := (labels st)(cset \<mapsto> label)\<rparr>;
             st2 = (if fst label = ''skip'' then st1\<lparr>skipCount := skipCount st1 + 1\<rparr>
                    else st1)
         in
         if fst label = ''skip'' \<and> skipCount st2 > 20 then (Broke st2, tr1)
         else
           (case bisectLabel env hgPrefix (opts st2) (fst label) cset (sRepo st2) (eRepo st2) tr1 of
              (Inl e, tr2) \<Rightarrow> (Raised e, tr2)
            | (Inr (g, b, c, s, e), tr2) \<Rightarrow>
               (let st3 = st2\<lparr>blamedGoodOrBad := g, blamedRev := b, currRev := c,
                              sRepo := s, eRepo := e\<rparr>
                in
                if testInitialRevs (opts st3) then
                  (if c \<noteq> None then (Raised AssertionError, tr2)
                   else (Completed (st3\<lparr>opts := (opts st3)\<lparr>testInitialRevs := False\<rparr>,
                                        currRev := Some (sRepo st3),
                                        iterNum := iterNum st3 + 1\<rparr>), tr2))
                else (Completed (st3\<lparr>iterNum := iterNum st3 + 1\<rparr>), tr2)))))"

text \<open>
  The loop. Mercurial may go on proposing revisions for ever, so the loop takes fuel: one
  unit per iteration, and \<open>None\<close> when it runs out before the loop has ended. An
  exception ends the loop with \<open>Inl\<close>; \<^verbatim>\<open>break\<close> and a failed loop condition end it
  with the state reached.
\<close>

fun bisect_loop ::
  "nat \<Rightarrow> env \<Rightarrow> string list \<Rightarrow> loop_state \<Rightarrow> trace \<Rightarrow> ((error + loop_state) \<times> trace) option" where
  "bisect_loop 0 env hgPrefix st tr = None"
| "bisect_loop (Suc n) env hgPrefix st tr =
    (case currRev st of
       None \<Rightarrow> Some (Inr st, tr)
     | Some cset \<Rightarrow>
        (case loop_body env hgPrefix st cset tr of
           (Raised e, tr1) \<Rightarrow> Some (Inl e, tr1)
         | (Broke st1, tr1) \<Rightarrow> Some (Inr st1, tr1)
         | (Completed st1, tr1) \<Rightarrow> bisect_loop n env hgPrefix st1 tr1))"

subsection \<open>checkBlameParents\<close>

text \<open>
  The label history and the two flags of \<^verbatim>\<open>checkBlameParents\<close>. The dictionary is
  changed in place, so the model hands it back on every path, also next to an exception.
\<close>

record blame_vars =
  labels_of :: "string \<rightharpoonup> label"
  bisectLied :: bool
  missedCommonAncestor :: bool

text \<open>
  The function returns nothing; what it finds out it writes to the log. \<open>outcome\<close> names
  the explanation it logs after the loop over the parents.
\<close>

datatype outcome =
    IntroducedByMerge
  | MarkedForWrongReason
  | RangeMissedParent string label

text \<open>Lines 376 to 388: test a parent that has no label yet.\<close>

definition ensure_tested ::
  "env \<Rightarrow> string \<Rightarrow> string \<Rightarrow> string \<Rightarrow> string \<Rightarrow> blame_vars \<Rightarrow> trace
     \<Rightarrow> error option \<times> blame_vars \<times> trace" where
  "ensure_tested env repo startRepo endRepo p v tr =
    (if labels_of v p = None then
       (let v1 = (if \<not> isAncestor env repo startRepo p \<and> \<not> isAncestor env repo endRepo p
                  then v\<lparr>missedCommonAncestor := True\<rparr> else v)
        in case call_testRev env p tr of
             (Inl e, tr1) \<Rightarrow> (Some e, v1, tr1)
           | (Inr label, tr1) \<Rightarrow> (None, v1\<lparr>labels_of := (labels_of v1)(p \<mapsto> label)\<rparr>, tr1))
     else (None, v, tr))"

text \<open>
  Lines 391 to 398: compare the parent's label with the blamed revision's.
  \<open>opposite\<close> is the dictionary \<^verbatim>\<open>{"good": "bad", "bad": "good"}\<close>.
\<close>

definition opposite :: "string \<rightharpoonup> string" where
  "opposite = [''good'' \<mapsto> ''bad'', ''bad'' \<mapsto> ''good'']"

definition compare_label :: "string \<Rightarrow> string \<Rightarrow> blame_vars \<Rightarrow> error option \<times> blame_vars" where
  "compare_label blamed p v =
    (case labels_of v p of
       None \<Rightarrow> (Some (KeyError p), v)
     | Some l \<Rightarrow>
        if fst l = ''skip'' then (None, v)
        else if fst l = blamed then (None, v\<lparr>bisectLied := True\<rparr>)
        else (case opposite blamed of
                None \<Rightarrow> (Some (KeyError blamed), v)
              | Some opp \<Rightarrow> if fst l = opp then (None, v) else (Some AssertionError, v)))"

text \<open>The \<^verbatim>\<open>for p in parents\<close> loop; an exception ends it.\<close>

fun check_parents ::
  "env \<Rightarrow> string \<Rightarrow> string \<Rightarrow> string \<Rightarrow> string \<Rightarrow> string list \<Rightarrow> blame_vars \<Rightarrow> trace
     \<Rightarrow> error option \<times> blame_vars \<times> trace" where
  "check_parents env repo blamed startRepo endRepo [] v tr = (None, v, tr)"
| "check_parents env repo blamed startRepo endRepo (p # ps) v tr =
    (case ensure_tested env repo startRepo endRepo p v tr of
       (Some e, v1, tr1) \<Rightarrow> (Some e, v1, tr1)
     | (None, v1, tr1) \<Rightarrow>
        (case compare_label blamed p v1 of
           (Some e, v2) \<Rightarrow> (Some e, v2, tr1)
         | (None, v2) \<Rightarrow> check_parents env repo blamed startRepo endRepo ps v2 tr1))"

text \<open>Lines 401 to 420: the explanation. The common ancestor's label is only logged.\<close>

definition explain ::
  "env \<Rightarrow> string \<Rightarrow> string list \<Rightarrow> blame_vars \<Rightarrow> trace \<Rightarrow> (error + outcome) \<times> trace" where
  "explain env repo parents v tr =
    (if bisectLied v then
       (if missedCommonAncestor v then
          (case parents of
             p0 # p1 # ps \<Rightarrow>
               (let ca = findCommonAncestor env repo p0 p1
                in case call_testRev env ca tr of
                     (Inl e, tr1) \<Rightarrow> (Inl e, tr1)
                   | (Inr label, tr1) \<Rightarrow> (Inr (RangeMissedParent ca label), tr1))
           | _ \<Rightarrow> (Inl IndexError, tr))
        else (Inr MarkedForWrongReason, tr))
     else (Inr IntroducedByMerge, tr))"

text \<open>
  \<open>parent_command\<close> is the command that asks Mercurial for the parents; they are
  the comma-terminated fields of its output. The result is \<open>Inr None\<close> for the early
  return on a single parent.
\<close>

definition parent_command :: "string \<Rightarrow> string \<Rightarrow> string list" where
  "parent_command repo blamedRev0 =
    [''hg'', ''-R'', repo] @ [''parent'', ''--template={node|short},'', ''-r'', blamedRev0]"

definition parents_of_output :: "string \<Rightarrow> string list" where
  "parents_of_output hg_parent_output = butlast (split_on CHR '','' hg_parent_output)"

definition checkBlameParents ::
  "env \<Rightarrow> string \<Rightarrow> string \<Rightarrow> string \<Rightarrow> (string \<rightharpoonup> label) \<Rightarrow> string \<Rightarrow> string \<Rightarrow> trace
     \<Rightarrow> (error + outcome option) \<times> (string \<rightharpoonup> label) \<times> trace" where
  "checkBlameParents env repo blamedRev0 blamed labels0 startRepo endRepo tr =
    (case run env (parent_command repo blamedRev0) tr of
       (Inl e, tr1) \<Rightarrow> (Inl e, labels0, tr1)
     | (Inr hg_parent_output, tr1) \<Rightarrow>
        (let parents = parents_of_output hg_parent_output in
         if length parents = 1 then (Inr None, labels0, tr1)
         else
           (case check_parents env repo blamed startRepo endRepo parents
                   \<lparr>labels_of = labels0, bisectLied = False, missedCommonAncestor = False\<rparr> tr1 of
              (Some e, v, tr2) \<Rightarrow> (Inl e, labels_of v, tr2)
            | (None, v, tr2) \<Rightarrow>
               (case explain env repo parents v tr2 of
                  (Inl e, tr3) \<Rightarrow> (Inl e, labels_of v, tr3)
                | (Inr oc, tr3) \<Rightarrow> (Inr (Some oc), labels_of v, tr3)))))"

subsection \<open>Example inputs\<close>

text \<open>Concrete options, shells and interestingness modules on which the theorems are run.\<close>

definition default_options :: options where
  "default_options =
    \<lparr>output = '''', watchExitCode = None, runtime_params = [''-e'', ''42''],
     build_options = \<lparr>repo_dir = ''/repo'', runWithVg = False\<rparr>, testInitialRevs = False\<rparr>"

definition assertion_options :: options where
  "assertion_options = default_options\<lparr>output := ''ssertion fail''\<rparr>"

definition segv_shell :: "string \<Rightarrow> string list \<Rightarrow> bool \<Rightarrow> string \<times> int" where
  "segv_shell shellFilename params vg = (''Segmentation fault'', - 11)"

definition usage_shell :: "string \<Rightarrow> string list \<Rightarrow> bool \<Rightarrow> string \<times> int" where
  "usage_shell shellFilename params vg = (''usage: js [options] [[script] scriptArgs*]'', 1)"

definition crashes_module :: condition_script where
  "crashes_module = \<lparr>init = None, interesting = (\<lambda>args pre fs. (Inr True, insert pre fs))\<rparr>"

definition raising_module :: condition_script where
  "raising_module =
    \<lparr>init = None, interesting = (\<lambda>args pre fs. (Inl (ExternalError ''boom''), fs))\<rparr>"

text \<open>A condition script whose \<^verbatim>\<open>init\<close> raises.\<close>

definition raising_init_module :: condition_script where
  "raising_init_module =
    \<lparr>init = Some (\<lambda>args fs. (Inl (ExternalError ''no shell''), fs)),
     interesting = (\<lambda>args pre fs. (Inr True, fs))\<rparr>"

text \<open>
  A stand-in for \<^verbatim>\<open>hg_helpers.get_cset_hash_from_bisect_msg\<close>: the twelve characters
  after the first colon of a "Testing changeset" line.
\<close>

definition testing_line :: string where
  "testing_line = ''Testing changeset 52121:573c5fa45cc4 (440 changesets remaining, ~8 tests)''"

definition hash_after_colon :: "string \<Rightarrow> string option" where
  "hash_after_colon l =
    (if prefix ''Testing changeset '' l
     then Some (take 12 (drop 1 (dropWhile (\<lambda>c. c \<noteq> CHR '':'') l)))
     else None)"

text \<open>
  Three sessions. In the first the oracle skips every revision and Mercurial proposes a
  next revision after every mark; in the second Mercurial prints nothing; in the third
  the oracle skips and Mercurial gives up at the first mark.
\<close>

definition skipping_env :: env where
  "skipping_env =
    \<lparr>hg_run = (\<lambda>tr cmd. Inr testing_line),
     testRev = (\<lambda>tr r. Inr (''skip'', ''compilation failed'')),
     get_cset_hash_from_bisect_msg = hash_after_colon,
     isAncestor = (\<lambda>repo a b. False),
     findCommonAncestor = (\<lambda>repo a b. a)\<rparr>"

definition silent_env :: env where
  "silent_env = skipping_env\<lparr>hg_run := (\<lambda>tr cmd. Inr '''')\<rparr>"

definition ambiguous_env :: env where
  "ambiguous_env =
    skipping_env\<lparr>hg_run :=
      (\<lambda>tr cmd. Inr ''Due to skipped revisions, the first bad revision could be any of:'')\<rparr>"

definition hg_prefix :: "string list" where
  "hg_prefix = [''hg'', ''-R'', ''/repo'']"

definition initial_options :: options where
  "initial_options = default_options\<lparr>testInitialRevs := True\<rparr>"

subsection \<open>Vocabulary for the skip-overflow property\<close>

text \<open>
  The oracle skips every revision, whatever happened before; Mercurial answers every
  skip mark with a line that has neither terminal shape and from which a next revision
  can be read.
\<close>

definition always_skips :: "env \<Rightarrow> bool" where
  "always_skips env = (\<forall>tr r. \<exists>reason. testRev env tr r = Inr (''skip'', reason))"

definition skip_mark :: "string list \<Rightarrow> string \<Rightarrow> string list" where
  "skip_mark hgPrefix r = hgPrefix @ [''bisect'', ''-U'', ''--skip'', r]"

definition always_proposes :: "env \<Rightarrow> string list \<Rightarrow> bool" where
  "always_proposes env hgPrefix =
    (\<forall>tr r. \<exists>out line0 others next.
       hg_run env tr (skip_mark hgPrefix r) = Inr out \<and>
       split_on (CHR 0x0A) out = line0 # others \<and>
       \<not> match_ambiguous line0 \<and> match_first line0 = None \<and>
       get_cset_hash_from_bisect_msg env line0 = Some next)"

text \<open>The revisions handed to the oracle, in order.\<close>

fun tested :: "trace \<Rightarrow> string list" where
  "tested [] = []"
| "tested (TestRev r # evs) = r # tested evs"
| "tested (ev # evs) = tested evs"

text \<open>
  The events of a run of skips over the revisions \<open>revs\<close>: every revision but the last
  is tested and then marked, the last is only tested.
\<close>

definition skip_run :: "string list \<Rightarrow> string list \<Rightarrow> trace" where
  "skip_run hgPrefix revs =
    concat (map (\<lambda>r. [TestRev r, Run (skip_mark hgPrefix r)]) (butlast revs)) @
    [TestRev (last revs)]"

text \<open>
  A history with merges: \<open>r0\<close> is the root, \<open>p1\<close> and \<open>q2\<close> are its children, \<open>s3\<close>
  is the child of \<open>p1\<close>, \<open>m4\<close> merges \<open>p1\<close> and \<open>q2\<close>, and \<open>e5\<close> merges \<open>s3\<close> and
  \<open>m4\<close>. \<open>history_ancestors r\<close> lists \<open>r\<close> and its ancestors. The session ran from
  \<open>s3\<close> (good) to \<open>e5\<close> (bad) and blamed \<open>m4\<close>; its parent \<open>p1\<close>, an ancestor of
  both endpoints, was never tested.
\<close>

definition history_ancestors :: "string \<Rightarrow> string list" where
  "history_ancestors r =
    (if r = ''p1'' then [''p1'', ''r0'']
     else if r = ''q2'' then [''q2'', ''r0'']
     else if r = ''s3'' then [''s3'', ''p1'', ''r0'']
     else if r = ''m4'' then [''m4'', ''p1'', ''q2'', ''r0'']
     else if r = ''e5'' then [''e5'', ''s3'', ''m4'', ''p1'', ''q2'', ''r0'']
     else [r])"

definition merge_env :: env where
  "merge_env =
    \<lparr>hg_run = (\<lambda>tr cmd. Inr ''p1,q2,''),
     testRev = (\<lambda>tr r. Inr (''good'', ''Exit code 0'')),
     get_cset_hash_from_bisect_msg = hash_after_colon,
     isAncestor = (\<lambda>repo a b. a \<in> set (history_ancestors b)),
     findCommonAncestor = (\<lambda>repo a b. ''r0'')\<rparr>"

definition session_labels :: "string \<rightharpoonup> label" where
  "session_labels =
    [''e5'' \<mapsto> (''bad'', ''Negative exit code -11''), ''s3'' \<mapsto> (''good'', ''Exit code 0''),
     ''q2'' \<mapsto> (''good'', ''Exit code 0''), ''m4'' \<mapsto> (''bad'', ''Negative exit code -11'')]"

text \<open>
  Three more sessions on the same history. In \<open>lied_labels\<close> the parent \<open>q2\<close> was recorded
  bad, like the blamed revision \<open>m4\<close>, and \<open>p1\<close> was never tested; in \<open>skipped_labels\<close>
  the parent \<open>p1\<close> was recorded as skipped as well; \<open>skip_merge_env\<close> is \<open>merge_env\<close> with
  an oracle that skips every revision, and in \<open>single_parent_env\<close> the blamed revision
  has the one parent \<open>p1\<close>.
\<close>

definition lied_labels :: "string \<rightharpoonup> label" where
  "lied_labels = session_labels(''q2'' \<mapsto> (''bad'', ''Negative exit code -11''))"

definition skipped_labels :: "string \<rightharpoonup> label" where
  "skipped_labels = lied_labels(''p1'' \<mapsto> (''skip'', ''compilation failed''))"

definition skip_merge_env :: env where
  "skip_merge_env = merge_env\<lparr>testRev := (\<lambda>tr r. Inr (''skip'', ''compilation failed''))\<rparr>"

definition single_parent_env :: env where
  "single_parent_env = merge_env\<lparr>hg_run := (\<lambda>tr cmd. Inr ''p1,'')\<rparr>"

subsection \<open>Facts about the helpers\<close>

lemma find_at_sublist: "0 \<le> i \<Longrightarrow> (find_at sub s i \<noteq> - 1) = sublist sub s"
proof (induction s arbitrary: i)
  case Nil
  then show ?case by auto
next
  case (Cons c cs)
  have step: "(find_at sub cs (i + 1) \<noteq> - 1) = sublist sub cs"
    using Cons.IH [of "i + 1"] Cons.prems by simp
  show ?case
  proof (cases "prefix sub (c # cs)")
    case True
    then show ?thesis using Cons.prems by (auto simp: sublist_Cons_right)
  next
    case False
    then show ?thesis using step by (simp add: sublist_Cons_right)
  qed
qed

lemma str_find_sublist: "(str_find s sub \<noteq> - 1) = sublist sub s"
  by (simp add: str_find_def find_at_sublist)

section \<open>The oracles\<close>

subsection \<open>The internal oracle\<close>

text \<open>
  C2. With no output filter (\<^verbatim>\<open>options.output\<close> empty) and no watched exit code
  (\<^verbatim>\<open>options.watchExitCode\<close> is \<^verbatim>\<open>None\<close>), a negative exit code \<open>e\<close> is labelled
  \<^verbatim>\<open>("bad", "Negative exit code " + str(e))\<close>, whatever the output: no earlier rule fires.
\<close>

theorem negative_exit_code_is_bad:
  assumes "output options = ''''" and "watchExitCode options = None"
    and "testBinary shellFilename (runtime_params options) (runWithVg (build_options options))
           = (stdoutStderr, e)"
    and "e < 0"
  shows "internalTestAndLabel testBinary options shellFilename hgHash
           = (''bad'', ''Negative exit code '' @ str e)"
  using assms by (simp add: internalTestAndLabel_def)

text \<open>Scenario B of the spec: exit code -11 gives \<^verbatim>\<open>("bad", "Negative exit code -11")\<close>.\<close>

theorem negative_exit_code_is_bad_witness:
  "internalTestAndLabel segv_shell default_options ''js'' ''573c5fa45cc4''
     = (''bad'', ''Negative exit code -11'')"
  using negative_exit_code_is_bad [of default_options segv_shell "''js''"
          "''Segmentation fault''" "- 11" "''573c5fa45cc4''"]
  by (simp add: default_options_def segv_shell_def str_def str_nat.simps digit_char_def)

text \<open>
  C3. Exit code 1 or 2, an output filter that is set but does not occur in the output,
  no watched exit code, and an output that contains one of the four markers of an
  unsupported command-line flag: the label is \<^verbatim>\<open>good\<close>, by the flag-rejection rule.
\<close>

theorem flag_rejection_is_good:
  assumes "e = 1 \<or> e = 2" and "output options \<noteq> ''''"
    and "\<not> sublist (output options) stdoutStderr"
    and "watchExitCode options = None"
    and "sublist ''usage: js ['' stdoutStderr \<or>
         sublist ''Error: Short option followed by junk'' stdoutStderr \<or>
         sublist ''Error: Invalid long option:'' stdoutStderr \<or>
         sublist ''Error: Invalid short option:'' stdoutStderr"
    and "testBinary shellFilename (runtime_params options) (runWithVg (build_options options))
           = (stdoutStderr, e)"
  shows "internalTestAndLabel testBinary options shellFilename hgHash
           = (''good'', ''Exit code 1 or 2 - js shell quits because it does not support a given CLI parameter'')"
  using assms unfolding internalTestAndLabel_def str_find_sublist by auto

theorem flag_rejection_is_good_witness:
  "internalTestAndLabel usage_shell assertion_options ''js'' ''573c5fa45cc4''
     = (''good'', ''Exit code 1 or 2 - js shell quits because it does not support a given CLI parameter'')"
proof -
  have absent: "\<not> sublist ''ssertion fail'' ''usage: js [options] [[script] scriptArgs*]''"
    unfolding str_find_sublist [symmetric] by (simp add: str_find_def)
  have marker: "sublist ''usage: js ['' ''usage: js [options] [[script] scriptArgs*]''"
    unfolding str_find_sublist [symmetric] by (simp add: str_find_def)
  show ?thesis
    using absent marker
      flag_rejection_is_good [of 1 assertion_options
        "''usage: js [options] [[script] scriptArgs*]''" usage_shell "''js''" "''573c5fa45cc4''"]
    by (simp add: assertion_options_def default_options_def usage_shell_def)
qed

subsection \<open>The external oracle\<close>

text \<open>
  C10. The label of the internal oracle is \<^verbatim>\<open>good\<close> or \<^verbatim>\<open>bad\<close> on every output, exit
  code and configuration, never \<^verbatim>\<open>skip\<close>; and whenever the external oracle returns a
  label, it is \<^verbatim>\<open>("bad", "interesting")\<close> or \<^verbatim>\<open>("good", "not interesting")\<close>.
\<close>

theorem oracles_never_skip:
  "fst (internalTestAndLabel testBinary options shellFilename hgHash) \<in> {''good'', ''bad''} \<and>
   fst (internalTestAndLabel testBinary options shellFilename hgHash) \<noteq> ''skip'' \<and>
   (\<forall>l fs'. externalTestAndLabel rel_or_abs_import options interestingness sfx shellFilename
               hgHash fs = (Inr l, fs')
      \<longrightarrow> l = (''bad'', ''interesting'') \<or> l = (''good'', ''not interesting''))"
proof -
  have internal: "fst (internalTestAndLabel testBinary options shellFilename hgHash)
                    \<in> {''good'', ''bad''}"
    by (simp add: internalTestAndLabel_def split: prod.splits)
  then have no_skip: "fst (internalTestAndLabel testBinary options shellFilename hgHash) \<noteq> ''skip''"
    by auto
  have external: "l = (''bad'', ''interesting'') \<or> l = (''good'', ''not interesting'')"
    if "externalTestAndLabel rel_or_abs_import options interestingness sfx shellFilename
          hgHash fs = (Inr l, fs')" for l fs'
    using that
    by (auto simp: externalTestAndLabel_def Let_def
             split: list.splits prod.splits sum.splits option.splits if_splits)
  from internal no_skip external show ?thesis by blast
qed

theorem oracles_never_skip_witness:
  "fst (internalTestAndLabel segv_shell default_options ''js'' ''573c5fa45cc4'') = ''bad'' \<and>
   externalTestAndLabel (\<lambda>name. crashes_module) default_options [''crashes'', ''--timeout=3'']
       ''x1'' ''js'' ''573c5fa45cc4'' {}
     = (Inr (''bad'', ''interesting''), {})"
  using oracles_never_skip [of segv_shell default_options "''js''" "''573c5fa45cc4''"
          "\<lambda>name. crashes_module" "[''crashes'', ''--timeout=3'']" "''x1''" "{}"]
  by (auto simp: internalTestAndLabel_def externalTestAndLabel_def default_options_def
        segv_shell_def crashes_module_def mkdtemp_def is_dir_def rm_tree_incl_readonly_def
        str_find_def Let_def)

text \<open>
  C5, as the code has it. When the call returns a label, the temporary directory it
  created is gone. When \<^verbatim>\<open>init\<close> raises, the call raises the same exception and the
  file system is the one \<^verbatim>\<open>init\<close> left; when \<^verbatim>\<open>init\<close> is absent or returns and
  \<^verbatim>\<open>interesting\<close> raises, the call raises that exception and the file system is the
  one \<^verbatim>\<open>interesting\<close> left. So on both exceptions the function removes nothing: the
  temporary directory stays unless the predicate itself removed it.
\<close>

theorem temp_dir_removed_on_return:
  "(\<forall>l fs'. externalTestAndLabel rel_or_abs_import options interestingness sfx shellFilename
               hgHash fs = (Inr l, fs')
      \<longrightarrow> fst (mkdtemp sfx (''abExtTestAndLabel-'' @ hgHash) fs) \<notin> fs') \<and>
   (\<forall>i0 conditionArgPrefix f e fs2.
      interestingness = i0 # conditionArgPrefix \<longrightarrow>
      init (rel_or_abs_import i0) = Some f \<longrightarrow>
      f (conditionArgPrefix @ [shellFilename] @ runtime_params options)
        (snd (mkdtemp sfx (''abExtTestAndLabel-'' @ hgHash) fs)) = (Inl e, fs2) \<longrightarrow>
      externalTestAndLabel rel_or_abs_import options interestingness sfx shellFilename hgHash fs
        = (Inl e, fs2)) \<and>
   (\<forall>i0 conditionArgPrefix u fs2 e fs3.
      interestingness = i0 # conditionArgPrefix \<longrightarrow>
      (case init (rel_or_abs_import i0) of
         None \<Rightarrow> (Inr (), snd (mkdtemp sfx (''abExtTestAndLabel-'' @ hgHash) fs))
       | Some f \<Rightarrow> f (conditionArgPrefix @ [shellFilename] @ runtime_params options)
                    (snd (mkdtemp sfx (''abExtTestAndLabel-'' @ hgHash) fs))) = (Inr u, fs2) \<longrightarrow>
      interesting (rel_or_abs_import i0)
        (conditionArgPrefix @ [shellFilename] @ runtime_params options)
        (fst (mkdtemp sfx (''abExtTestAndLabel-'' @ hgHash) fs) @ ''/t'') fs2 = (Inl e, fs3) \<longrightarrow>
      externalTestAndLabel rel_or_abs_import options interestingness sfx shellFilename hgHash fs
        = (Inl e, fs3))"
proof -
  have returned: "fst (mkdtemp sfx (''abExtTestAndLabel-'' @ hgHash) fs) \<notin> fs'"
    if "externalTestAndLabel rel_or_abs_import options interestingness sfx shellFilename
          hgHash fs = (Inr l, fs')" for l fs'
    using that
    by (auto simp: externalTestAndLabel_def Let_def mkdtemp_def is_dir_def
          rm_tree_incl_readonly_def
          split: list.splits prod.splits sum.splits option.splits if_splits)
  have init_raises:
    "externalTestAndLabel rel_or_abs_import options interestingness sfx shellFilename hgHash fs
       = (Inl e, fs2)"
    if "interestingness = i0 # conditionArgPrefix"
      and "init (rel_or_abs_import i0) = Some f"
      and "f (conditionArgPrefix @ [shellFilename] @ runtime_params options)
             (snd (mkdtemp sfx (''abExtTestAndLabel-'' @ hgHash) fs)) = (Inl e, fs2)"
    for i0 conditionArgPrefix f e fs2
    using that by (simp add: externalTestAndLabel_def Let_def mkdtemp_def)
  have interesting_raises:
    "externalTestAndLabel rel_or_abs_import options interestingness sfx shellFilename hgHash fs
       = (Inl e, fs3)"
    if "interestingness = i0 # conditionArgPrefix"
      and "(case init (rel_or_abs_import i0) of
         None \<Rightarrow> (Inr (), snd (mkdtemp sfx (''abExtTestAndLabel-'' @ hgHash) fs))
       | Some f \<Rightarrow> f (conditionArgPrefix @ [shellFilename] @ runtime_params options)
                    (snd (mkdtemp sfx (''abExtTestAndLabel-'' @ hgHash) fs))) = (Inr u, fs2)"
      and "interesting (rel_or_abs_import i0)
        (conditionArgPrefix @ [shellFilename] @ runtime_params options)
        (fst (mkdtemp sfx (''abExtTestAndLabel-'' @ hgHash) fs) @ ''/t'') fs2 = (Inl e, fs3)"
    for i0 conditionArgPrefix u fs2 e fs3
    using that
    by (cases "init (rel_or_abs_import i0)")
       (simp_all add: externalTestAndLabel_def Let_def mkdtemp_def)
  from returned init_raises interesting_raises show ?thesis by blast
qed

theorem temp_dir_removed_on_return_witness:
  "externalTestAndLabel (\<lambda>name. crashes_module) default_options [''crashes'', ''--timeout=3'']
       ''x1'' ''js'' ''573c5fa45cc4'' {}
     = (Inr (''bad'', ''interesting''), {}) \<and>
   externalTestAndLabel (\<lambda>name. raising_init_module) default_options
       [''crashes'', ''--timeout=3''] ''x1'' ''js'' ''573c5fa45cc4'' {}
     = (Inl (ExternalError ''no shell''), {''/tmp/abExtTestAndLabel-573c5fa45cc4x1''}) \<and>
   externalTestAndLabel (\<lambda>name. raising_module) default_options
       [''crashes'', ''--timeout=3''] ''x1'' ''js'' ''573c5fa45cc4'' {}
     = (Inl (ExternalError ''boom''), {''/tmp/abExtTestAndLabel-573c5fa45cc4x1''}) \<and>
   fst (mkdtemp ''x1'' (''abExtTestAndLabel-'' @ ''573c5fa45cc4'') {})
     = ''/tmp/abExtTestAndLabel-573c5fa45cc4x1''"
proof -
  have tmp: "fst (mkdtemp ''x1'' (''abExtTestAndLabel-'' @ ''573c5fa45cc4'') {})
               = ''/tmp/abExtTestAndLabel-573c5fa45cc4x1''"
    by (simp add: mkdtemp_def Let_def)
  have returned: "externalTestAndLabel (\<lambda>name. crashes_module) default_options
       [''crashes'', ''--timeout=3''] ''x1'' ''js'' ''573c5fa45cc4'' {}
     = (Inr (''bad'', ''interesting''), {})"
    by (auto simp: externalTestAndLabel_def default_options_def crashes_module_def mkdtemp_def
          is_dir_def rm_tree_incl_readonly_def Let_def)
  have i1: "init raising_init_module = Some (\<lambda>args fs. (Inl (ExternalError ''no shell''), fs))"
    by (simp add: raising_init_module_def)
  have by_init: "externalTestAndLabel (\<lambda>name. raising_init_module) default_options
       [''crashes'', ''--timeout=3''] ''x1'' ''js'' ''573c5fa45cc4'' {}
     = (Inl (ExternalError ''no shell''), {''/tmp/abExtTestAndLabel-573c5fa45cc4x1''})"
    using temp_dir_removed_on_return [of "\<lambda>name. raising_init_module" default_options
            "[''crashes'', ''--timeout=3'']" "''x1''" "''js''" "''573c5fa45cc4''" "{}"]
      i1
    by (simp add: mkdtemp_def Let_def)
  have i2: "init raising_module = None"
    by (simp add: raising_module_def)
  have i3: "interesting raising_module args pre fs0 = (Inl (ExternalError ''boom''), fs0)"
    for args pre fs0
    by (simp add: raising_module_def)
  have by_interesting: "externalTestAndLabel (\<lambda>name. raising_module) default_options
       [''crashes'', ''--timeout=3''] ''x1'' ''js'' ''573c5fa45cc4'' {}
     = (Inl (ExternalError ''boom''), {''/tmp/abExtTestAndLabel-573c5fa45cc4x1''})"
    using temp_dir_removed_on_return [of "\<lambda>name. raising_module" default_options
            "[''crashes'', ''--timeout=3'']" "''x1''" "''js''" "''573c5fa45cc4''" "{}"]
      i2 i3
    by (simp add: mkdtemp_def Let_def)
  have gone: "''/tmp/abExtTestAndLabel-573c5fa45cc4x1'' \<notin> ({} :: fs)"
    using temp_dir_removed_on_return [of "\<lambda>name. crashes_module" default_options
            "[''crashes'', ''--timeout=3'']" "''x1''" "''js''" "''573c5fa45cc4''" "{}"]
      returned
    by simp
  from returned by_init by_interesting tmp show ?thesis by blast
qed

text \<open>
  C5 as the spec states it fails: an \<^verbatim>\<open>interesting\<close> that raises leaves the call with
  the exception and with the temporary directory still in the file system.
\<close>

theorem temp_dir_leaks_on_exception:
  "externalTestAndLabel (\<lambda>name. raising_module) default_options [''crashes'', ''--timeout=3'']
       ''x1'' ''js'' ''573c5fa45cc4'' {}
     = (Inl (ExternalError ''boom''), {''/tmp/abExtTestAndLabel-573c5fa45cc4x1''}) \<and>
   fst (mkdtemp ''x1'' (''abExtTestAndLabel-'' @ ''573c5fa45cc4'') {})
     \<in> snd (externalTestAndLabel (\<lambda>name. raising_module) default_options
              [''crashes'', ''--timeout=3''] ''x1'' ''js'' ''573c5fa45cc4'' {})"
  by (simp add: externalTestAndLabel_def default_options_def raising_module_def mkdtemp_def
        Let_def)

section \<open>bisectLabel\<close>

text \<open>
  What \<^verbatim>\<open>bisectLabel\<close> returns when the first output line has neither of the two
  terminal shapes, a revision can be read from it, and the session is past its initial
  revisions.
\<close>

lemma bisectLabel_next:
  assumes "hgLabel \<in> {''good'', ''bad'', ''skip''}"
    and "hg_run env tr (hgPrefix @ [''bisect'', ''-U'', ''--'' @ hgLabel, cur]) = Inr outputResult"
    and "split_on (CHR 0x0A) outputResult = line0 # others"
    and "\<not> match_ambiguous line0" and "match_first line0 = None"
    and "get_cset_hash_from_bisect_msg env line0 = Some next"
    and "\<not> testInitialRevs options"
  shows "bisectLabel env hgPrefix options hgLabel cur startRepo endRepo tr
           = (Inr (None, None, Some next,
                   (if hgLabel = ''good'' then next else startRepo),
                   (if hgLabel = ''bad'' then next else endRepo)),
              tr @ [Run (hgPrefix @ [''bisect'', ''-U'', ''--'' @ hgLabel, cur])])"
  using assms by (auto simp: bisectLabel_def run_def)

text \<open>
  What \<^verbatim>\<open>bisectLabel\<close> returns while the session is still testing its initial
  revisions: every call that returns gives no next revision and the start and end it was
  given, after the mark as its only command; and it does return when the first output
  line has neither of the two terminal shapes.
\<close>

lemma bisectLabel_initial:
  assumes "testInitialRevs options"
    and "bisectLabel env hgPrefix options hgLabel cur startRepo endRepo tr
           = (Inr (g, b, c, s, e), tr')"
  shows "c = None \<and> s = startRepo \<and> e = endRepo \<and>
         tr' = tr @ [Run (hgPrefix @ [''bisect'', ''-U'', ''--'' @ hgLabel, cur])]"
proof (cases "hgLabel \<in> {''good'', ''bad'', ''skip''}")
  case False
  then show ?thesis using assms by (simp add: bisectLabel_def)
next
  case True
  show ?thesis
  proof (cases "hg_run env tr (hgPrefix @ [''bisect'', ''-U'', ''--'' @ hgLabel, cur])")
    case (Inl x)
    then show ?thesis using True assms by (simp add: bisectLabel_def run_def)
  next
    case (Inr out)
    show ?thesis
    proof (cases "split_on (CHR 0x0A) out")
      case Nil
      then show ?thesis using True Inr assms by (simp add: bisectLabel_def run_def)
    next
      case (Cons line0 others)
      show ?thesis
      proof (cases "match_ambiguous line0")
        case True
        then show ?thesis using \<open>hgLabel \<in> _\<close> Inr Cons assms
          by (simp add: bisectLabel_def run_def)
      next
        case False
        show ?thesis
        proof (cases "match_first line0")
          case (Some v)
          then show ?thesis using \<open>hgLabel \<in> _\<close> Inr Cons False assms
            by (cases others) (simp_all add: bisectLabel_def run_def)
        next
          case None
          then show ?thesis using \<open>hgLabel \<in> _\<close> Inr Cons False assms
            by (simp add: bisectLabel_def run_def)
        qed
      qed
    qed
  qed
qed

lemma bisectLabel_initial_unparsed:
  assumes "hgLabel \<in> {''good'', ''bad'', ''skip''}"
    and "hg_run env tr (hgPrefix @ [''bisect'', ''-U'', ''--'' @ hgLabel, cur]) = Inr outputResult"
    and "split_on (CHR 0x0A) outputResult = line0 # others"
    and "\<not> match_ambiguous line0" and "match_first line0 = None"
    and "testInitialRevs options"
  shows "bisectLabel env hgPrefix options hgLabel cur startRepo endRepo tr
           = (Inr (None, None, None, startRepo, endRepo),
              tr @ [Run (hgPrefix @ [''bisect'', ''-U'', ''--'' @ hgLabel, cur])])"
  using assms by (simp add: bisectLabel_def run_def)

text \<open>
  C4, as the code has it. Mercurial answers a mark with a line that proposes the next
  revision (a "Testing changeset" line is one). While \<^verbatim>\<open>options.testInitialRevs\<close> is
  off, label \<^verbatim>\<open>skip\<close> returns the start and end it was given, label \<^verbatim>\<open>good\<close> replaces
  only the start by the proposed revision, label \<^verbatim>\<open>bad\<close> only the end. While
  \<^verbatim>\<open>options.testInitialRevs\<close> is on, the same call returns no next revision and the
  start and end it was given, for each of the three labels.
\<close>

theorem range_update_on_next_revision:
  assumes "hg_run env tr (hgPrefix @ [''bisect'', ''-U'', ''--'' @ hgLabel, cur]) = Inr outputResult"
    and "split_on (CHR 0x0A) outputResult = line0 # others"
    and "\<not> match_ambiguous line0" and "match_first line0 = None"
    and "get_cset_hash_from_bisect_msg env line0 = Some next"
  shows "(\<not> testInitialRevs options \<longrightarrow>
           (hgLabel = ''skip'' \<longrightarrow>
              fst (bisectLabel env hgPrefix options hgLabel cur startRepo endRepo tr)
                = Inr (None, None, Some next, startRepo, endRepo)) \<and>
           (hgLabel = ''good'' \<longrightarrow>
              fst (bisectLabel env hgPrefix options hgLabel cur startRepo endRepo tr)
                = Inr (None, None, Some next, next, endRepo)) \<and>
           (hgLabel = ''bad'' \<longrightarrow>
              fst (bisectLabel env hgPrefix options hgLabel cur startRepo endRepo tr)
                = Inr (None, None, Some next, startRepo, next))) \<and>
         (testInitialRevs options \<longrightarrow>
            (hgLabel = ''skip'' \<or> hgLabel = ''good'' \<or> hgLabel = ''bad'') \<longrightarrow>
            fst (bisectLabel env hgPrefix options hgLabel cur startRepo endRepo tr)
              = Inr (None, None, None, startRepo, endRepo))"
proof -
  have off: "fst (bisectLabel env hgPrefix options hgLabel cur startRepo endRepo tr)
               = Inr (None, None, Some next,
                      (if hgLabel = ''good'' then next else startRepo),
                      (if hgLabel = ''bad'' then next else endRepo))"
    if "\<not> testInitialRevs options" and "hgLabel \<in> {''good'', ''bad'', ''skip''}"
    using bisectLabel_next [OF that(2) assms that(1), of startRepo endRepo] by simp
  have on: "fst (bisectLabel env hgPrefix options hgLabel cur startRepo endRepo tr)
              = Inr (None, None, None, startRepo, endRepo)"
    if "testInitialRevs options" and "hgLabel \<in> {''good'', ''bad'', ''skip''}"
    using bisectLabel_initial_unparsed [OF that(2) assms(1-4) that(1), of startRepo endRepo]
    by simp
  have skip: "fst (bisectLabel env hgPrefix options hgLabel cur startRepo endRepo tr)
                = Inr (None, None, Some next, startRepo, endRepo)"
    if "\<not> testInitialRevs options" "hgLabel = ''skip''"
    using off [OF that(1)] that(2) by simp
  have good: "fst (bisectLabel env hgPrefix options hgLabel cur startRepo endRepo tr)
                = Inr (None, None, Some next, next, endRepo)"
    if "\<not> testInitialRevs options" "hgLabel = ''good''"
    using off [OF that(1)] that(2) by simp
  have bad: "fst (bisectLabel env hgPrefix options hgLabel cur startRepo endRepo tr)
                = Inr (None, None, Some next, startRepo, next)"
    if "\<not> testInitialRevs options" "hgLabel = ''bad''"
    using off [OF that(1)] that(2) by simp
  have on': "fst (bisectLabel env hgPrefix options hgLabel cur startRepo endRepo tr)
              = Inr (None, None, None, startRepo, endRepo)"
    if "testInitialRevs options" and "hgLabel = ''skip'' \<or> hgLabel = ''good'' \<or> hgLabel = ''bad''"
    using on [OF that(1)] that(2) by blast
  from skip good bad on' show ?thesis by blast
qed

theorem range_update_witness:
  "fst (bisectLabel skipping_env hg_prefix default_options ''skip'' ''aaa'' ''s'' ''e'' [])
     = Inr (None, None, Some ''573c5fa45cc4'', ''s'', ''e'') \<and>
   fst (bisectLabel skipping_env hg_prefix default_options ''good'' ''aaa'' ''s'' ''e'' [])
     = Inr (None, None, Some ''573c5fa45cc4'', ''573c5fa45cc4'', ''e'') \<and>
   fst (bisectLabel skipping_env hg_prefix default_options ''bad'' ''aaa'' ''s'' ''e'' [])
     = Inr (None, None, Some ''573c5fa45cc4'', ''s'', ''573c5fa45cc4'') \<and>
   fst (bisectLabel skipping_env hg_prefix initial_options ''bad'' ''aaa'' ''s'' ''e'' [])
     = Inr (None, None, None, ''s'', ''e'')"
proof -
  have run: "hg_run skipping_env [] (hg_prefix @ [''bisect'', ''-U'', ''--'' @ l, ''aaa''])
               = Inr testing_line" for l
    by (simp add: skipping_env_def)
  have line: "split_on (CHR 0x0A) testing_line = testing_line # []"
    by (simp add: testing_line_def)
  have shape: "\<not> match_ambiguous testing_line" "match_first testing_line = None"
    by (simp_all add: testing_line_def match_ambiguous_def match_first_def)
  have hash: "get_cset_hash_from_bisect_msg skipping_env testing_line = Some ''573c5fa45cc4''"
    by (simp add: skipping_env_def hash_after_colon_def testing_line_def)
  have mode: "\<not> testInitialRevs default_options" "testInitialRevs initial_options"
    by (simp_all add: default_options_def initial_options_def)
  show ?thesis
    using range_update_on_next_revision [OF run [of "''skip''"] line shape hash,
        where startRepo = "''s''" and endRepo = "''e''" and options = default_options]
      range_update_on_next_revision [OF run [of "''good''"] line shape hash,
        where startRepo = "''s''" and endRepo = "''e''" and options = default_options]
      range_update_on_next_revision [OF run [of "''bad''"] line shape hash,
        where startRepo = "''s''" and endRepo = "''e''" and options = default_options]
      range_update_on_next_revision [OF run [of "''bad''"] line shape hash,
        where startRepo = "''s''" and endRepo = "''e''" and options = initial_options]
      mode
    by simp
qed

text \<open>
  C4 as the spec states it fails while \<^verbatim>\<open>options.testInitialRevs\<close> is on: the function
  returns before it reads the line, so label \<^verbatim>\<open>good\<close> leaves the start as it was
  although Mercurial answered with a "Testing changeset" line.
\<close>

theorem range_kept_while_testing_initial_revisions:
  "fst (bisectLabel skipping_env hg_prefix initial_options ''good'' ''aaa'' ''s'' ''e'' [])
     = Inr (None, None, None, ''s'', ''e'') \<and>
   hg_run skipping_env [] (hg_prefix @ [''bisect'', ''-U'', ''--'' @ ''good'', ''aaa''])
     = Inr testing_line \<and>
   get_cset_hash_from_bisect_msg skipping_env testing_line = Some ''573c5fa45cc4''"
  by (simp add: bisectLabel_def run_def skipping_env_def initial_options_def default_options_def
        hg_prefix_def testing_line_def match_ambiguous_def match_first_def hash_after_colon_def)

text \<open>
  C9, as the code has it. The label is one of the three, Mercurial answers the mark, the
  first output line has neither terminal shape and no revision can be read from it.
  While \<^verbatim>\<open>options.testInitialRevs\<close> is off the call raises: the trace continues with
  the mark and then \<^verbatim>\<open>hg update -C default\<close>, and when that command succeeds the
  exception is "hg did not suggest a changeset to test!". While
  \<^verbatim>\<open>options.testInitialRevs\<close> is on the call returns no next revision and the start and
  end it was given, and its only command is the mark.
\<close>

theorem parse_failure_is_fatal:
  assumes "hgLabel \<in> {''good'', ''bad'', ''skip''}"
    and "hg_run env tr (hgPrefix @ [''bisect'', ''-U'', ''--'' @ hgLabel, cur]) = Inr outputResult"
    and "split_on (CHR 0x0A) outputResult = line0 # others"
    and "\<not> match_ambiguous line0" and "match_first line0 = None"
    and "get_cset_hash_from_bisect_msg env line0 = None"
  shows "(\<not> testInitialRevs options \<longrightarrow>
           isl (fst (bisectLabel env hgPrefix options hgLabel cur startRepo endRepo tr)) \<and>
           prefix (tr @ [Run (hgPrefix @ [''bisect'', ''-U'', ''--'' @ hgLabel, cur]),
                         Run (hgPrefix @ [''update'', ''-C'', ''default''])])
                  (snd (bisectLabel env hgPrefix options hgLabel cur startRepo endRepo tr)) \<and>
           (\<forall>out. hg_run env (tr @ [Run (hgPrefix @ [''bisect'', ''-U'', ''--'' @ hgLabel, cur])])
                     (hgPrefix @ [''update'', ''-C'', ''default'']) = Inr out \<longrightarrow>
             bisectLabel env hgPrefix options hgLabel cur startRepo endRepo tr
               = (Inl (Exception ''hg did not suggest a changeset to test!''),
                  tr @ [Run (hgPrefix @ [''bisect'', ''-U'', ''--'' @ hgLabel, cur]),
                        Run (hgPrefix @ [''update'', ''-C'', ''default'']),
                        DestroyPyc (repo_dir (build_options options))]))) \<and>
         (testInitialRevs options \<longrightarrow>
            bisectLabel env hgPrefix options hgLabel cur startRepo endRepo tr
              = (Inr (None, None, None, startRepo, endRepo),
                 tr @ [Run (hgPrefix @ [''bisect'', ''-U'', ''--'' @ hgLabel, cur])]))"
proof -
  have off: "isl (fst (bisectLabel env hgPrefix options hgLabel cur startRepo endRepo tr)) \<and>
           prefix (tr @ [Run (hgPrefix @ [''bisect'', ''-U'', ''--'' @ hgLabel, cur]),
                         Run (hgPrefix @ [''update'', ''-C'', ''default''])])
                  (snd (bisectLabel env hgPrefix options hgLabel cur startRepo endRepo tr)) \<and>
           (\<forall>out. hg_run env (tr @ [Run (hgPrefix @ [''bisect'', ''-U'', ''--'' @ hgLabel, cur])])
                     (hgPrefix @ [''update'', ''-C'', ''default'']) = Inr out \<longrightarrow>
             bisectLabel env hgPrefix options hgLabel cur startRepo endRepo tr
               = (Inl (Exception ''hg did not suggest a changeset to test!''),
                  tr @ [Run (hgPrefix @ [''bisect'', ''-U'', ''--'' @ hgLabel, cur]),
                        Run (hgPrefix @ [''update'', ''-C'', ''default'']),
                        DestroyPyc (repo_dir (build_options options))]))"
    if "\<not> testInitialRevs options"
    using assms that by (auto simp: bisectLabel_def run_def split: sum.splits)
  have on: "bisectLabel env hgPrefix options hgLabel cur startRepo endRepo tr
              = (Inr (None, None, None, startRepo, endRepo),
                 tr @ [Run (hgPrefix @ [''bisect'', ''-U'', ''--'' @ hgLabel, cur])])"
    if "testInitialRevs options"
    using bisectLabel_initial_unparsed [OF assms(1-5) that] .
  from off on show ?thesis by blast
qed

theorem parse_failure_witness:
  "bisectLabel silent_env hg_prefix default_options ''good'' ''aaa'' ''s'' ''e'' []
     = (Inl (Exception ''hg did not suggest a changeset to test!''),
        [Run [''hg'', ''-R'', ''/repo'', ''bisect'', ''-U'', ''--good'', ''aaa''],
         Run [''hg'', ''-R'', ''/repo'', ''update'', ''-C'', ''default''],
         DestroyPyc ''/repo'']) \<and>
   bisectLabel silent_env hg_prefix initial_options ''bad'' ''aaa'' ''s'' ''e'' []
     = (Inr (None, None, None, ''s'', ''e''),
        [Run [''hg'', ''-R'', ''/repo'', ''bisect'', ''-U'', ''--bad'', ''aaa'']])"
proof -
  have lab: "''good'' \<in> {''good'', ''bad'', ''skip''}" "''bad'' \<in> {''good'', ''bad'', ''skip''}"
    by simp_all
  have run: "hg_run silent_env [] (hg_prefix @ [''bisect'', ''-U'', ''--'' @ l, ''aaa''])
               = Inr ''''" for l
    by (simp add: silent_env_def skipping_env_def)
  have line: "split_on (CHR 0x0A) '''' = '''' # []" by simp
  have shape: "\<not> match_ambiguous ''''" "match_first '''' = None"
    by (simp_all add: match_ambiguous_def match_first_def)
  have hash: "get_cset_hash_from_bisect_msg silent_env '''' = None"
    by (simp add: silent_env_def skipping_env_def hash_after_colon_def)
  have mode: "\<not> testInitialRevs default_options" "testInitialRevs initial_options"
    by (simp_all add: default_options_def initial_options_def)
  show ?thesis
    using parse_failure_is_fatal [OF lab(1) run line shape hash, of default_options
            "''s''" "''e''"]
      parse_failure_is_fatal [OF lab(2) run line shape hash, of initial_options
            "''s''" "''e''"]
      mode
    by (simp add: silent_env_def skipping_env_def hg_prefix_def default_options_def
          initial_options_def)
qed

text \<open>
  C9 as the spec states it fails while \<^verbatim>\<open>options.testInitialRevs\<close> is on: an empty
  answer, from which no revision can be read, makes the call return normally, with no
  update of the working copy and no exception.
\<close>

theorem no_exception_while_testing_initial_revisions:
  "bisectLabel silent_env hg_prefix initial_options ''good'' ''aaa'' ''s'' ''e'' []
     = (Inr (None, None, None, ''s'', ''e''),
        [Run [''hg'', ''-R'', ''/repo'', ''bisect'', ''-U'', ''--good'', ''aaa'']]) \<and>
   get_cset_hash_from_bisect_msg silent_env '''' = None"
  by (simp add: bisectLabel_def run_def silent_env_def skipping_env_def initial_options_def
        default_options_def hg_prefix_def match_ambiguous_def match_first_def hash_after_colon_def)

section \<open>The loop of findBlamedCset\<close>

subsection \<open>What one iteration does to the trace\<close>

lemma tested_append: "tested (xs @ ys) = tested xs @ tested ys"
  by (induction xs rule: tested.induct) auto

lemma tested_bisectLabel:
  "tested (snd (bisectLabel env hgPrefix options hgLabel cur startRepo endRepo tr)) = tested tr"
proof (cases "hgLabel \<in> {''good'', ''bad'', ''skip''}")
  case False
  then show ?thesis by (simp add: bisectLabel_def)
next
  case True
  show ?thesis
  proof (cases "hg_run env tr (hgPrefix @ [''bisect'', ''-U'', ''--'' @ hgLabel, cur])")
    case (Inl e)
    then show ?thesis using True by (simp add: bisectLabel_def run_def tested_append)
  next
    case (Inr out)
    show ?thesis
    proof (cases "split_on (CHR 0x0A) out")
      case Nil
      then show ?thesis using True Inr by (simp add: bisectLabel_def run_def tested_append)
    next
      case (Cons line0 others)
      show ?thesis
      proof (cases "match_ambiguous line0")
        case True
        then show ?thesis using \<open>hgLabel \<in> _\<close> Inr Cons
          by (simp add: bisectLabel_def run_def tested_append)
      next
        case False
        show ?thesis
        proof (cases "match_first line0")
          case (Some g)
          then show ?thesis using \<open>hgLabel \<in> _\<close> Inr Cons False
            by (simp add: bisectLabel_def run_def tested_append split: list.split)
        next
          case None
          then show ?thesis using \<open>hgLabel \<in> _\<close> Inr Cons False
            by (simp add: bisectLabel_def run_def tested_append Let_def
                  split: option.split sum.split)
        qed
      qed
    qed
  qed
qed

lemma bisectLabel_skip_proposed:
  assumes "always_proposes env hgPrefix"
  shows "\<exists>c. bisectLabel env hgPrefix options ''skip'' r s e tr
               = (Inr (None, None, c, s, e), tr @ [Run (skip_mark hgPrefix r)]) \<and>
             (testInitialRevs options \<longrightarrow> c = None) \<and>
             (\<not> testInitialRevs options \<longrightarrow> c \<noteq> None)"
proof -
  from assms obtain out line0 others "next" where
    h: "hg_run env tr (skip_mark hgPrefix r) = Inr out"
       "split_on (CHR 0x0A) out = line0 # others"
       "\<not> match_ambiguous line0" "match_first line0 = None"
       "get_cset_hash_from_bisect_msg env line0 = Some next"
    unfolding always_proposes_def by blast
  then show ?thesis
    by (simp add: bisectLabel_def run_def skip_mark_def)
qed

lemma skip_run_single: "skip_run hgPrefix [r] = [TestRev r]"
  by (simp add: skip_run_def)

lemma skip_run_Cons:
  "revs \<noteq> [] \<Longrightarrow>
   skip_run hgPrefix (r # revs) = TestRev r # Run (skip_mark hgPrefix r) # skip_run hgPrefix revs"
  by (simp add: skip_run_def)

lemma loop_body_break:
  assumes "testRev env tr r = Inr (''skip'', reason)" and "20 \<le> skipCount st"
  shows "loop_body env hgPrefix st r tr
           = (Broke (st\<lparr>labels := (labels st)(r \<mapsto> (''skip'', reason)),
                        skipCount := skipCount st + 1\<rparr>), tr @ [TestRev r])"
  using assms by (simp add: loop_body_def call_testRev_def Let_def)

lemma tested_bisectLabel_eq:
  "bisectLabel env hgPrefix options hgLabel cur startRepo endRepo tr = (res, tr')
     \<Longrightarrow> tested tr' = tested tr"
  using tested_bisectLabel [of env hgPrefix options hgLabel cur startRepo endRepo tr] by simp

lemma loop_body_proposed:
  assumes "always_proposes env hgPrefix"
    and "testRev env tr r = Inr (''skip'', reason)" and "skipCount st < 20"
  shows "\<exists>st' r'. loop_body env hgPrefix st r tr
                     = (Completed st', tr @ [TestRev r, Run (skip_mark hgPrefix r)]) \<and>
                   skipCount st' = Suc (skipCount st) \<and> currRev st' = Some r' \<and>
                   blamedRev st' = None"
proof -
  from bisectLabel_skip_proposed [OF assms(1), of "opts st" r "sRepo st" "eRepo st" "tr @ [TestRev r]"]
  obtain c where
    b: "bisectLabel env hgPrefix (opts st) ''skip'' r (sRepo st) (eRepo st) (tr @ [TestRev r])
          = (Inr (None, None, c, sRepo st, eRepo st),
             (tr @ [TestRev r]) @ [Run (skip_mark hgPrefix r)])"
    and c1: "testInitialRevs (opts st) \<longrightarrow> c = None"
    and c2: "\<not> testInitialRevs (opts st) \<longrightarrow> c \<noteq> None"
    by blast
  show ?thesis
  proof (cases "testInitialRevs (opts st)")
    case True
    then show ?thesis using c1 assms(2,3)
      by (simp add: loop_body_def call_testRev_def Let_def b)
  next
    case False
    then obtain r' where "c = Some r'" using c2 by auto
    then show ?thesis using False assms(2,3)
      by (simp add: loop_body_def call_testRev_def Let_def b)
  qed
qed

lemma loop_body_skip:
  assumes "testRev env tr r = Inr (''skip'', reason)"
    and "loop_body env hgPrefix st r tr = (it, tr')"
  shows "tested tr' = tested tr @ [r] \<and>
         (\<forall>st'. it = Completed st' \<longrightarrow> skipCount st' = Suc (skipCount st) \<and> skipCount st < 20)"
  using assms
  by (auto simp: loop_body_def call_testRev_def Let_def tested_append
           dest!: tested_bisectLabel_eq split: prod.splits sum.splits if_splits)

lemma loop_skips_exactly:
  assumes skips: "always_skips env" and proposes: "always_proposes env hgPrefix"
  shows "skipCount st + m = 20 \<Longrightarrow> m \<le> n \<Longrightarrow> currRev st = Some r \<Longrightarrow> blamedRev st = None \<Longrightarrow>
         \<exists>revs st'. length revs = Suc m \<and> hd revs = r \<and>
            bisect_loop (Suc n) env hgPrefix st tr = Some (Inr st', tr @ skip_run hgPrefix revs) \<and>
            skipCount st' = 21 \<and> blamedRev st' = None"
proof (induction m arbitrary: st tr r n)
  case 0
  from skips obtain reason where t: "testRev env tr r = Inr (''skip'', reason)"
    unfolding always_skips_def by blast
  have "20 \<le> skipCount st" using 0 by simp
  from loop_body_break [OF t this, of hgPrefix] show ?case
    using 0 by (intro exI [of _ "[r]"]) (simp add: skip_run_single)
next
  case (Suc m)
  from skips obtain reason where t: "testRev env tr r = Inr (''skip'', reason)"
    unfolding always_skips_def by blast
  have lt: "skipCount st < 20" using Suc.prems by simp
  from loop_body_proposed [OF proposes t lt] obtain st1 r' where
    body: "loop_body env hgPrefix st r tr
             = (Completed st1, tr @ [TestRev r, Run (skip_mark hgPrefix r)])"
    and st1: "skipCount st1 = Suc (skipCount st)" "currRev st1 = Some r'" "blamedRev st1 = None"
    by blast
  obtain n' where n: "n = Suc n'" "m \<le> n'" using Suc.prems(2) by (cases n) auto
  have cnt: "skipCount st1 + m = 20" using st1(1) Suc.prems(1) by simp
  from Suc.IH [OF cnt n(2) st1(2) st1(3), of "tr @ [TestRev r, Run (skip_mark hgPrefix r)]"]
  obtain revs st' where
    ih: "length revs = Suc m" "hd revs = r'"
        "bisect_loop (Suc n') env hgPrefix st1 (tr @ [TestRev r, Run (skip_mark hgPrefix r)])
           = Some (Inr st', (tr @ [TestRev r, Run (skip_mark hgPrefix r)]) @ skip_run hgPrefix revs)"
        "skipCount st' = 21" "blamedRev st' = None"
    by blast
  have ne: "revs \<noteq> []" using ih(1) by auto
  have "bisect_loop (Suc n) env hgPrefix st tr
          = bisect_loop (Suc n') env hgPrefix st1 (tr @ [TestRev r, Run (skip_mark hgPrefix r)])"
    using Suc.prems(3) body n(1) by simp
  then show ?case
    using ih ne
    by (intro exI [of _ "r # revs"] exI [of _ st']) (simp add: skip_run_Cons)
qed

lemma loop_skips_terminates:
  assumes skips: "always_skips env"
  shows "skipCount st + m = 20 \<Longrightarrow> m \<le> n \<Longrightarrow>
         \<exists>res tr'. bisect_loop (Suc n) env hgPrefix st tr = Some (res, tr') \<and>
            length (tested tr') \<le> length (tested tr) + Suc m"
proof (induction m arbitrary: st tr n)
  case 0
  show ?case
  proof (cases "currRev st")
    case None
    then show ?thesis by simp
  next
    case (Some r)
    from skips obtain reason where t: "testRev env tr r = Inr (''skip'', reason)"
      unfolding always_skips_def by blast
    have "20 \<le> skipCount st" using 0 by simp
    from loop_body_break [OF t this, of hgPrefix] show ?thesis
      using Some by (simp add: tested_append)
  qed
next
  case (Suc m)
  show ?case
  proof (cases "currRev st")
    case None
    then show ?thesis by simp
  next
    case (Some r)
    from skips obtain reason where t: "testRev env tr r = Inr (''skip'', reason)"
      unfolding always_skips_def by blast
    obtain it tr1 where body: "loop_body env hgPrefix st r tr = (it, tr1)"
      by (cases "loop_body env hgPrefix st r tr")
    from loop_body_skip [OF t body] have
      tr1: "tested tr1 = tested tr @ [r]"
      and cont: "\<And>st'. it = Completed st' \<Longrightarrow> skipCount st' = Suc (skipCount st)"
      by auto
    obtain n' where n: "n = Suc n'" "m \<le> n'" using Suc.prems(2) by (cases n) auto
    show ?thesis
    proof (cases it)
      case (Raised e)
      then show ?thesis using Some body tr1 by simp
    next
      case (Broke st1)
      then show ?thesis using Some body tr1 by simp
    next
      case (Completed st1)
      have cnt: "skipCount st1 + m = 20" using cont [OF Completed] Suc.prems(1) by simp
      from Suc.IH [OF cnt n(2), of tr1] obtain res tr' where
        "bisect_loop (Suc n') env hgPrefix st1 tr1 = Some (res, tr')"
        "length (tested tr') \<le> length (tested tr1) + Suc m" by blast
      moreover have "bisect_loop (Suc n) env hgPrefix st tr = bisect_loop (Suc n') env hgPrefix st1 tr1"
        using Some body Completed n(1) by simp
      ultimately show ?thesis using tr1 by simp
    qed
  qed
qed

lemma bisect_loop_step:
  "0 < n \<Longrightarrow>
   bisect_loop n env hgPrefix st tr =
    (case currRev st of
       None \<Rightarrow> Some (Inr st, tr)
     | Some cset \<Rightarrow>
        (case loop_body env hgPrefix st cset tr of
           (Raised e, tr1) \<Rightarrow> Some (Inl e, tr1)
         | (Broke st1, tr1) \<Rightarrow> Some (Inr st1, tr1)
         | (Completed st1, tr1) \<Rightarrow> bisect_loop (n - 1) env hgPrefix st1 tr1))"
  by (cases n) (auto split: option.split prod.split iteration.split)

text \<open>
  C1, as the code has it. When the oracle answers \<^verbatim>\<open>skip\<close> for every revision, the
  loop of \<^verbatim>\<open>findBlamedCset\<close> ends within twenty-one iterations whatever Mercurial
  answers: twenty-one units of fuel are enough and the oracle is called at most
  twenty-one times. When moreover Mercurial proposes a next revision after every skip
  mark, the loop makes exactly twenty-one oracle calls: each of the first twenty is
  followed by its mark, the twenty-first is not marked, the loop is left with the
  counter at 21 and no blamed revision.
\<close>

theorem skip_overflow_stops_the_loop:
  assumes "always_skips env" and "21 \<le> fuel"
  shows "(\<exists>res tr'. bisect_loop fuel env hgPrefix (start_state options labels0 cur0 s e) tr
                       = Some (res, tr') \<and>
                    length (tested tr') \<le> length (tested tr) + 21) \<and>
         (always_proposes env hgPrefix \<longrightarrow>
           (\<forall>r0. cur0 = Some r0 \<longrightarrow>
             (\<exists>revs st'. length revs = 21 \<and> hd revs = r0 \<and>
                bisect_loop fuel env hgPrefix (start_state options labels0 cur0 s e) tr
                  = Some (Inr st', tr @ skip_run hgPrefix revs) \<and>
                skipCount st' = 21 \<and> blamedRev st' = None)))"
proof -
  obtain n where fuel: "fuel = Suc n" "20 \<le> n"
    using assms(2) by (cases fuel) auto
  have cnt: "skipCount (start_state options labels0 cur0 s e) + 20 = 20"
    by (simp add: start_state_def)
  have none: "blamedRev (start_state options labels0 cur0 s e) = None"
    by (simp add: start_state_def)
  have cur: "currRev (start_state options labels0 cur0 s e) = cur0"
    by (simp add: start_state_def)
  from loop_skips_terminates [OF assms(1) cnt fuel(2), of hgPrefix tr]
  have first: "\<exists>res tr'. bisect_loop fuel env hgPrefix (start_state options labels0 cur0 s e) tr
                       = Some (res, tr') \<and>
                    length (tested tr') \<le> length (tested tr) + 21"
    using fuel(1) by simp
  have second: "\<exists>revs st'. length revs = 21 \<and> hd revs = r0 \<and>
                bisect_loop fuel env hgPrefix (start_state options labels0 cur0 s e) tr
                  = Some (Inr st', tr @ skip_run hgPrefix revs) \<and>
                skipCount st' = 21 \<and> blamedRev st' = None"
    if "always_proposes env hgPrefix" and "cur0 = Some r0" for r0
    using loop_skips_exactly [OF assms(1) that(1) cnt fuel(2) _ none, of r0 tr] cur that(2) fuel(1)
    by simp
  from first second show ?thesis by blast
qed

lemma skipping_env_skips: "always_skips skipping_env"
  by (simp add: always_skips_def skipping_env_def)

lemma skipping_env_proposes: "always_proposes skipping_env hg_prefix"
  unfolding always_proposes_def
  by (simp add: skipping_env_def testing_line_def match_ambiguous_def match_first_def
        hash_after_colon_def)

text \<open>
  The run of the skipping session, computed: twenty-one oracle calls, the first on the
  start revision, forty-one events in all (twenty marks), and the loop left by
  \<^verbatim>\<open>break\<close> with the counter at 21.
\<close>

theorem skip_overflow_witness:
  "always_skips skipping_env \<and> always_proposes skipping_env hg_prefix \<and>
   map_option (\<lambda>(res, tr). (map_sum id skipCount res, tested tr, length tr))
     (bisect_loop 21 skipping_env hg_prefix
        (start_state default_options Map.empty (Some ''e5'') ''s1'' ''e5'') [])
   = Some (Inr 21, ''e5'' # replicate 20 ''573c5fa45cc4'', 41)"
proof -
  have run21: "map_option (\<lambda>(res, tr). (map_sum id skipCount res, tested tr, length tr))
     (bisect_loop 21 skipping_env hg_prefix
        (start_state default_options Map.empty (Some ''e5'') ''s1'' ''e5'') [])
   = Some (Inr 21, ''e5'' # replicate 20 ''573c5fa45cc4'', 41)"
    by (simp add: bisect_loop_step loop_body_def call_testRev_def bisectLabel_def run_def
          Let_def skipping_env_def hg_prefix_def start_state_def default_options_def
          match_ambiguous_def match_first_def hash_after_colon_def testing_line_def
          eval_nat_numeral)
  show ?thesis
    using skip_overflow_stops_the_loop [OF skipping_env_skips, of 21 hg_prefix default_options
            Map.empty "Some ''e5''" "''s1''" "''e5''" "[]"]
      skipping_env_skips skipping_env_proposes run21
    by blast
qed

lemma ambiguous_env_skips: "always_skips ambiguous_env"
  by (simp add: always_skips_def ambiguous_env_def skipping_env_def)

text \<open>
  C1 as the spec states it fails: the oracle skips every revision, Mercurial answers the
  first mark with "Due to skipped revisions, the first bad revision could be any of:",
  and the loop ends after one skip verdict.
\<close>

theorem loop_ends_early_when_hg_gives_up:
  "always_skips ambiguous_env \<and>
   map_option snd (bisect_loop 21 ambiguous_env hg_prefix
                     (start_state default_options Map.empty (Some ''e5'') ''s1'' ''e5'') [])
     = Some [TestRev ''e5'', Run [''hg'', ''-R'', ''/repo'', ''bisect'', ''-U'', ''--skip'', ''e5'']] \<and>
   map_option (map_sum id skipCount \<circ> fst)
       (bisect_loop 21 ambiguous_env hg_prefix
          (start_state default_options Map.empty (Some ''e5'') ''s1'' ''e5'') [])
     = Some (Inr 1)"
proof -
  have "bisect_loop 21 ambiguous_env hg_prefix
          (start_state default_options Map.empty (Some ''e5'') ''s1'' ''e5'') []
      = Some (Inr ((start_state default_options Map.empty (Some ''e5'') ''s1'' ''e5'')
           \<lparr>labels := [''e5'' \<mapsto> (''skip'', ''compilation failed'')], currRev := None,
            skipCount := 1, iterNum := 2\<rparr>),
         [TestRev ''e5'', Run [''hg'', ''-R'', ''/repo'', ''bisect'', ''-U'', ''--skip'', ''e5'']])"
    by (simp add: bisect_loop_step loop_body_def call_testRev_def bisectLabel_def run_def
          Let_def ambiguous_env_def skipping_env_def hg_prefix_def start_state_def
          default_options_def match_ambiguous_def)
  then show ?thesis
    using ambiguous_env_skips by simp
qed

section \<open>checkBlameParents\<close>

subsection \<open>What the loop over the parents preserves\<close>

lemma ensure_tested_frame:
  assumes "ensure_tested env repo startRepo endRepo p v tr = (err, v', tr')"
  shows "labels_of v \<subseteq>\<^sub>m labels_of v' \<and> dom (labels_of v') \<subseteq> insert p (dom (labels_of v)) \<and>
         bisectLied v' = bisectLied v \<and> (err = None \<longrightarrow> labels_of v' p \<noteq> None)"
  using assms
  by (auto simp: ensure_tested_def call_testRev_def Let_def map_le_def
           split: if_splits sum.splits)

lemma compare_label_frame:
  assumes "compare_label blamed p v = (err, v')"
  shows "labels_of v' = labels_of v \<and> missedCommonAncestor v' = missedCommonAncestor v"
  using assms
  by (auto simp: compare_label_def split: option.splits if_splits)

lemma check_parents_Cons:
  "check_parents env repo blamed startRepo endRepo (p # ps) v tr = (err, v', tr') \<Longrightarrow>
   ensure_tested env repo startRepo endRepo p v tr = (e1, v1, tr1) \<Longrightarrow>
   compare_label blamed p v1 = (e2, v2) \<Longrightarrow>
   (e1 \<noteq> None \<and> err = e1 \<and> v' = v1 \<and> tr' = tr1) \<or>
   (e1 = None \<and> e2 \<noteq> None \<and> err = e2 \<and> v' = v2 \<and> tr' = tr1) \<or>
   (e1 = None \<and> e2 = None \<and>
    check_parents env repo blamed startRepo endRepo ps v2 tr1 = (err, v', tr'))"
  by (cases e1; cases e2) auto

lemma check_parents_frame:
  "check_parents env repo blamed startRepo endRepo ps v tr = (err, v', tr') \<Longrightarrow>
   labels_of v \<subseteq>\<^sub>m labels_of v' \<and> dom (labels_of v') \<subseteq> dom (labels_of v) \<union> set ps"
proof (induction ps arbitrary: v tr)
  case Nil
  then show ?case by simp
next
  case (Cons p ps)
  obtain e1 v1 tr1 where et: "ensure_tested env repo startRepo endRepo p v tr = (e1, v1, tr1)"
    by (cases "ensure_tested env repo startRepo endRepo p v tr") auto
  obtain e2 v2 where cl: "compare_label blamed p v1 = (e2, v2)"
    by (cases "compare_label blamed p v1")
  from ensure_tested_frame [OF et] have
    f1: "labels_of v \<subseteq>\<^sub>m labels_of v1" "dom (labels_of v1) \<subseteq> insert p (dom (labels_of v))"
    by simp_all
  from compare_label_frame [OF cl] have f2: "labels_of v2 = labels_of v1" by simp
  from check_parents_Cons [OF Cons.prems et cl]
  consider (a) "v' = v1" | (b) "v' = v2"
    | (c) "check_parents env repo blamed startRepo endRepo ps v2 tr1 = (err, v', tr')"
    by blast
  then show ?case
  proof cases
    case a
    then show ?thesis using f1 by auto
  next
    case b
    then show ?thesis using f1 f2 by auto
  next
    case c
    from Cons.IH [OF c] have
      ih: "labels_of v2 \<subseteq>\<^sub>m labels_of v'" "dom (labels_of v') \<subseteq> dom (labels_of v2) \<union> set ps"
      by simp_all
    have "labels_of v \<subseteq>\<^sub>m labels_of v'"
      using f1(1) ih(1) unfolding f2 by (rule map_le_trans)
    moreover have "dom (labels_of v') \<subseteq> dom (labels_of v) \<union> set (p # ps)"
      using f1(2) ih(2) unfolding f2 list.set by blast
    ultimately show ?thesis by simp
  qed
qed

subsection \<open>What one pass of the loop does\<close>

lemma bex_except: "\<not> P p \<Longrightarrow> (\<exists>q\<in>S. P q) = (\<exists>q\<in>S - {p}. P q)"
  by auto

lemma ensure_tested_cases:
  assumes "ensure_tested env repo startRepo endRepo p v tr = (err, v', tr')"
  shows "(labels_of v p \<noteq> None \<and> err = None \<and> v' = v \<and> tr' = tr) \<or>
         (labels_of v p = None \<and> tr' = tr @ [TestRev p] \<and>
          missedCommonAncestor v' =
            (missedCommonAncestor v \<or>
             (\<not> isAncestor env repo startRepo p \<and> \<not> isAncestor env repo endRepo p)) \<and>
          ((\<exists>e. testRev env tr p = Inl e \<and> err = Some e \<and> labels_of v' = labels_of v) \<or>
           (\<exists>l. testRev env tr p = Inr l \<and> err = None \<and>
                labels_of v' = (labels_of v)(p \<mapsto> l))))"
  using assms
  by (cases "testRev env tr p")
     (auto simp: ensure_tested_def call_testRev_def Let_def split: if_splits)

lemma ensure_tested_trace:
  assumes "ensure_tested env repo startRepo endRepo p v tr = (err, v', tr')"
  shows "prefix tr tr'"
  using ensure_tested_cases [OF assms] by auto

lemma ensure_tested_steady:
  assumes "labels_of v p = Some l \<or> (labels_of v p = None \<and> (\<forall>tr0. testRev env tr0 p = Inr l))"
  shows "\<exists>v1 tr1. ensure_tested env repo startRepo endRepo p v tr = (None, v1, tr1) \<and>
           labels_of v1 = (labels_of v)(p \<mapsto> l) \<and> bisectLied v1 = bisectLied v"
proof (cases "labels_of v p")
  case None
  with assms have "testRev env tr p = Inr l" by simp
  with None show ?thesis
    by (simp add: ensure_tested_def call_testRev_def Let_def)
next
  case (Some l')
  with assms have known: "labels_of v p = Some l" by simp
  then have "(labels_of v)(p \<mapsto> l) = labels_of v" by (rule map_upd_triv)
  with known show ?thesis by (simp add: ensure_tested_def)
qed

lemma compare_label_ok:
  assumes "labels_of v p = Some l"
    and "blamed = ''good'' \<or> blamed = ''bad''"
    and "fst l = ''good'' \<or> fst l = ''bad'' \<or> fst l = ''skip''"
  shows "\<exists>v'. compare_label blamed p v = (None, v') \<and> labels_of v' = labels_of v \<and>
              bisectLied v' = (bisectLied v \<or> fst l = blamed)"
  using assms by (auto simp: compare_label_def opposite_def)

subsection \<open>What the completed loop has done\<close>

lemma check_parents_trace:
  "check_parents env repo blamed startRepo endRepo ps v tr = (err, v', tr') \<Longrightarrow> prefix tr tr'"
proof (induction ps arbitrary: v tr)
  case Nil
  then show ?case by simp
next
  case (Cons p ps)
  obtain e1 v1 tr1 where et: "ensure_tested env repo startRepo endRepo p v tr = (e1, v1, tr1)"
    by (cases "ensure_tested env repo startRepo endRepo p v tr") auto
  obtain e2 v2 where cl: "compare_label blamed p v1 = (e2, v2)"
    by (cases "compare_label blamed p v1")
  from ensure_tested_trace [OF et] have p1: "prefix tr tr1" .
  from check_parents_Cons [OF Cons.prems et cl]
  consider (a) "tr' = tr1"
    | (c) "check_parents env repo blamed startRepo endRepo ps v2 tr1 = (err, v', tr')"
    by blast
  then show ?case
  proof cases
    case a
    then show ?thesis using p1 by simp
  next
    case c
    from Cons.IH [OF c] have "prefix tr1 tr'" .
    with p1 show ?thesis by (rule prefix_order.trans)
  qed
qed

lemma check_parents_missed:
  "check_parents env repo blamed startRepo endRepo ps v tr = (None, v', tr') \<Longrightarrow>
   missedCommonAncestor v' =
     (missedCommonAncestor v \<or>
      (\<exists>q\<in>set ps. labels_of v q = None \<and>
         \<not> isAncestor env repo startRepo q \<and> \<not> isAncestor env repo endRepo q))"
proof (induction ps arbitrary: v tr)
  case Nil
  then show ?case by simp
next
  case (Cons p ps)
  obtain e1 v1 tr1 where et: "ensure_tested env repo startRepo endRepo p v tr = (e1, v1, tr1)"
    by (cases "ensure_tested env repo startRepo endRepo p v tr") auto
  obtain e2 v2 where cl: "compare_label blamed p v1 = (e2, v2)"
    by (cases "compare_label blamed p v1")
  from check_parents_Cons [OF Cons.prems et cl] have
    e1: "e1 = None" and e2: "e2 = None"
    and rec: "check_parents env repo blamed startRepo endRepo ps v2 tr1 = (None, v', tr')"
    by blast+
  from compare_label_frame [OF cl] have
    f2: "labels_of v2 = labels_of v1" "missedCommonAncestor v2 = missedCommonAncestor v1"
    by simp_all
  have ih: "missedCommonAncestor v' =
     (missedCommonAncestor v1 \<or>
      (\<exists>q\<in>set ps. labels_of v1 q = None \<and>
         \<not> isAncestor env repo startRepo q \<and> \<not> isAncestor env repo endRepo q))"
    using Cons.IH [OF rec] unfolding f2 .
  from ensure_tested_cases [OF et] e1
  consider (known) "labels_of v p \<noteq> None" "v1 = v"
    | (new) l where "labels_of v p = None"
        "missedCommonAncestor v1 =
           (missedCommonAncestor v \<or>
            (\<not> isAncestor env repo startRepo p \<and> \<not> isAncestor env repo endRepo p))"
        "labels_of v1 = (labels_of v)(p \<mapsto> l)"
    by auto
  then show ?case
  proof cases
    case known
    show ?thesis
      unfolding ih known(2) using known(1) by auto
  next
    case new
    have rest: "(\<exists>q\<in>set ps. ((labels_of v)(p \<mapsto> l)) q = None \<and>
                  \<not> isAncestor env repo startRepo q \<and> \<not> isAncestor env repo endRepo q)
        = (\<exists>q\<in>set ps. q \<noteq> p \<and> labels_of v q = None \<and>
                  \<not> isAncestor env repo startRepo q \<and> \<not> isAncestor env repo endRepo q)"
      by auto
    show ?thesis
      unfolding ih new(2) new(3) rest using new(1) by auto
  qed
qed

lemma check_parents_tested:
  "check_parents env repo blamed startRepo endRepo ps v tr = (None, v', tr') \<Longrightarrow>
   q \<in> set ps \<Longrightarrow> labels_of v q = None \<Longrightarrow>
   \<exists>tr0 l. prefix tr tr0 \<and> prefix (tr0 @ [TestRev q]) tr' \<and> testRev env tr0 q = Inr l \<and>
           labels_of v' q = Some l"
proof (induction ps arbitrary: v tr)
  case Nil
  then show ?case by simp
next
  case (Cons p ps)
  obtain e1 v1 tr1 where et: "ensure_tested env repo startRepo endRepo p v tr = (e1, v1, tr1)"
    by (cases "ensure_tested env repo startRepo endRepo p v tr") auto
  obtain e2 v2 where cl: "compare_label blamed p v1 = (e2, v2)"
    by (cases "compare_label blamed p v1")
  from check_parents_Cons [OF Cons.prems(1) et cl] have
    e1: "e1 = None" and e2: "e2 = None"
    and rec: "check_parents env repo blamed startRepo endRepo ps v2 tr1 = (None, v', tr')"
    by blast+
  from compare_label_frame [OF cl] have f2: "labels_of v2 = labels_of v1" by simp
  from check_parents_frame [OF rec] have frame: "labels_of v2 \<subseteq>\<^sub>m labels_of v'" by simp
  from check_parents_trace [OF rec] have trace: "prefix tr1 tr'" .
  from ensure_tested_trace [OF et] have p1: "prefix tr tr1" .
  show ?case
  proof (cases "q = p")
    case True
    with Cons.prems(3) have un: "labels_of v p = None" by simp
    from ensure_tested_cases [OF et] un e1 obtain l where
      t: "tr1 = tr @ [TestRev p]" "testRev env tr p = Inr l"
         "labels_of v1 = (labels_of v)(p \<mapsto> l)"
      by auto
    have "labels_of v2 p = Some l" unfolding f2 t(3) by simp
    then have "p \<in> dom (labels_of v2)" by (rule domI)
    with frame have "labels_of v2 p = labels_of v' p" unfolding map_le_def by blast
    with \<open>labels_of v2 p = Some l\<close> have stored: "labels_of v' p = Some l" by simp
    have "prefix (tr @ [TestRev p]) tr'" using trace unfolding t(1) .
    moreover have "prefix tr tr" by simp
    ultimately show ?thesis using True t(2) stored by blast
  next
    case False
    with Cons.prems(2) have qin: "q \<in> set ps" by simp
    from ensure_tested_cases [OF et] e1
    have "labels_of v1 = labels_of v \<or> (\<exists>l. labels_of v1 = (labels_of v)(p \<mapsto> l))"
      by auto
    then have "labels_of v1 q = labels_of v q" using False by auto
    with Cons.prems(3) have un2: "labels_of v2 q = None" unfolding f2 by simp
    from Cons.IH [OF rec qin un2] obtain tr0 l where
      r: "prefix tr1 tr0" "prefix (tr0 @ [TestRev q]) tr'" "testRev env tr0 q = Inr l"
         "labels_of v' q = Some l"
      by blast
    from p1 r(1) have "prefix tr tr0" by (rule prefix_order.trans)
    with r(2-4) show ?thesis by blast
  qed
qed

text \<open>
  The loop runs to its end when the blamed verdict is good or bad and every parent has
  a verdict that is good, bad or skip: its recorded label or, with none recorded, the
  label the oracle gives it whatever happened before.
\<close>

lemma check_parents_steady:
  assumes "blamed = ''good'' \<or> blamed = ''bad''"
    and "\<forall>q\<in>set ps.
           (labels_of v q = Some (verdict q) \<or>
            (labels_of v q = None \<and> (\<forall>tr0. testRev env tr0 q = Inr (verdict q)))) \<and>
           (fst (verdict q) = ''good'' \<or> fst (verdict q) = ''bad'' \<or> fst (verdict q) = ''skip'')"
  shows "\<exists>v' tr'. check_parents env repo blamed startRepo endRepo ps v tr = (None, v', tr') \<and>
           (\<forall>q\<in>set ps. labels_of v' q = Some (verdict q)) \<and>
           bisectLied v' = (bisectLied v \<or> (\<exists>q\<in>set ps. fst (verdict q) = blamed))"
  using assms(2)
proof (induction ps arbitrary: v tr)
  case Nil
  then show ?case by simp
next
  case (Cons p ps)
  from Cons.prems have
    here: "labels_of v p = Some (verdict p) \<or>
           (labels_of v p = None \<and> (\<forall>tr0. testRev env tr0 p = Inr (verdict p)))"
    and shape: "fst (verdict p) = ''good'' \<or> fst (verdict p) = ''bad'' \<or> fst (verdict p) = ''skip''"
    by simp_all
  from ensure_tested_steady [OF here] obtain v1 tr1 where
    et: "ensure_tested env repo startRepo endRepo p v tr = (None, v1, tr1)"
    and l1: "labels_of v1 = (labels_of v)(p \<mapsto> verdict p)"
    and b1: "bisectLied v1 = bisectLied v"
    by blast
  have at_p: "labels_of v1 p = Some (verdict p)" unfolding l1 by simp
  from compare_label_ok [OF at_p assms(1) shape] obtain v2 where
    cl: "compare_label blamed p v1 = (None, v2)"
    and l2: "labels_of v2 = labels_of v1"
    and b2: "bisectLied v2 = (bisectLied v1 \<or> fst (verdict p) = blamed)"
    by blast
  have step: "check_parents env repo blamed startRepo endRepo (p # ps) v tr
                = check_parents env repo blamed startRepo endRepo ps v2 tr1"
    by (simp add: et cl)
  have rest: "\<forall>q\<in>set ps.
           (labels_of v2 q = Some (verdict q) \<or>
            (labels_of v2 q = None \<and> (\<forall>tr0. testRev env tr0 q = Inr (verdict q)))) \<and>
           (fst (verdict q) = ''good'' \<or> fst (verdict q) = ''bad'' \<or> fst (verdict q) = ''skip'')"
  proof
    fix q assume "q \<in> set ps"
    with Cons.prems have
      hq: "labels_of v q = Some (verdict q) \<or>
           (labels_of v q = None \<and> (\<forall>tr0. testRev env tr0 q = Inr (verdict q)))"
      and sq: "fst (verdict q) = ''good'' \<or> fst (verdict q) = ''bad'' \<or> fst (verdict q) = ''skip''"
      by simp_all
    have "labels_of v2 q = Some (verdict q) \<or>
           (labels_of v2 q = None \<and> (\<forall>tr0. testRev env tr0 q = Inr (verdict q)))"
    proof (cases "q = p")
      case True
      then show ?thesis using at_p l2 by simp
    next
      case False
      then have "labels_of v2 q = labels_of v q" unfolding l2 l1 by simp
      with hq show ?thesis by simp
    qed
    with sq show "(labels_of v2 q = Some (verdict q) \<or>
            (labels_of v2 q = None \<and> (\<forall>tr0. testRev env tr0 q = Inr (verdict q)))) \<and>
           (fst (verdict q) = ''good'' \<or> fst (verdict q) = ''bad'' \<or> fst (verdict q) = ''skip'')"
      by simp
  qed
  from Cons.IH [OF rest, of tr1] obtain v' tr' where
    rec: "check_parents env repo blamed startRepo endRepo ps v2 tr1 = (None, v', tr')"
    and lab: "\<forall>q\<in>set ps. labels_of v' q = Some (verdict q)"
    and lied: "bisectLied v' = (bisectLied v2 \<or> (\<exists>q\<in>set ps. fst (verdict q) = blamed))"
    by blast
  from check_parents_frame [OF rec] have frame: "labels_of v2 \<subseteq>\<^sub>m labels_of v'" by simp
  have "labels_of v2 p = Some (verdict p)" unfolding l2 by (rule at_p)
  then have "p \<in> dom (labels_of v2)" by (rule domI)
  with frame have "labels_of v2 p = labels_of v' p" unfolding map_le_def by blast
  with \<open>labels_of v2 p = Some (verdict p)\<close> have kept: "labels_of v' p = Some (verdict p)" by simp
  have all: "\<forall>q\<in>set (p # ps). labels_of v' q = Some (verdict q)"
    using kept lab by simp
  have flag: "bisectLied v' = (bisectLied v \<or> (\<exists>q\<in>set (p # ps). fst (verdict q) = blamed))"
    unfolding lied b2 b1 by auto
  from rec all flag show ?case unfolding step by blast
qed

subsection \<open>The explanation\<close>

lemma explain_merge:
  "\<not> bisectLied v \<Longrightarrow> explain env repo ps v tr = (Inr IntroducedByMerge, tr)"
  by (simp add: explain_def)

lemma explain_wrong_reason:
  "bisectLied v \<Longrightarrow> \<not> missedCommonAncestor v \<Longrightarrow>
   explain env repo ps v tr = (Inr MarkedForWrongReason, tr)"
  by (simp add: explain_def)

lemma explain_missed_range:
  assumes "bisectLied v" and "missedCommonAncestor v" and "2 \<le> length ps"
  shows "explain env repo ps v tr =
           (case testRev env tr (findCommonAncestor env repo (ps ! 0) (ps ! 1)) of
              Inl e \<Rightarrow> (Inl e, tr @ [TestRev (findCommonAncestor env repo (ps ! 0) (ps ! 1))])
            | Inr l \<Rightarrow> (Inr (RangeMissedParent (findCommonAncestor env repo (ps ! 0) (ps ! 1)) l),
                        tr @ [TestRev (findCommonAncestor env repo (ps ! 0) (ps ! 1))]))"
proof -
  from assms(3) obtain p0 p1 rest where ps: "ps = p0 # p1 # rest"
    by (cases ps; cases "tl ps") auto
  show ?thesis
    unfolding ps using assms(1,2)
    by (simp add: explain_def call_testRev_def Let_def split: sum.split)
qed

lemma explain_outcome:
  assumes "explain env repo ps v tr = (Inr oc, tr')"
  shows "(oc = IntroducedByMerge \<longrightarrow> \<not> bisectLied v) \<and>
         (oc = MarkedForWrongReason \<longrightarrow> bisectLied v \<and> \<not> missedCommonAncestor v) \<and>
         (\<forall>ca l. oc = RangeMissedParent ca l \<longrightarrow> bisectLied v \<and> missedCommonAncestor v) \<and>
         prefix tr tr'"
proof (cases "bisectLied v")
  case False
  then show ?thesis using assms by (auto simp: explain_merge)
next
  case True
  show ?thesis
  proof (cases "missedCommonAncestor v")
    case False
    then show ?thesis using assms True by (auto simp: explain_wrong_reason)
  next
    case missed: True
    show ?thesis
    proof (cases ps)
      case Nil
      then show ?thesis using assms True missed by (simp add: explain_def)
    next
      case (Cons p0 ps1)
      show ?thesis
      proof (cases ps1)
        case Nil
        then show ?thesis using assms True missed Cons by (simp add: explain_def)
      next
        case (Cons p1 ps2)
        then show ?thesis
          using assms True missed \<open>ps = p0 # ps1\<close>
          by (cases "testRev env tr (findCommonAncestor env repo p0 p1)")
             (auto simp: explain_def call_testRev_def Let_def)
      qed
    qed
  qed
qed

subsection \<open>The whole function\<close>

lemma checkBlameParents_single:
  assumes "hg_run env tr (parent_command repo blamedRev0) = Inr out"
    and "length (parents_of_output out) = 1"
  shows "checkBlameParents env repo blamedRev0 blamed labels0 startRepo endRepo tr
           = (Inr None, labels0, tr @ [Run (parent_command repo blamedRev0)])"
  using assms by (simp add: checkBlameParents_def run_def Let_def)

lemma checkBlameParents_loop:
  assumes "hg_run env tr (parent_command repo blamedRev0) = Inr out"
    and "length (parents_of_output out) \<noteq> 1"
    and "check_parents env repo blamed startRepo endRepo (parents_of_output out)
           \<lparr>labels_of = labels0, bisectLied = False, missedCommonAncestor = False\<rparr>
           (tr @ [Run (parent_command repo blamedRev0)]) = (None, v1, tr2)"
  shows "checkBlameParents env repo blamedRev0 blamed labels0 startRepo endRepo tr =
           (case explain env repo (parents_of_output out) v1 tr2 of
              (Inl e, tr3) \<Rightarrow> (Inl e, labels_of v1, tr3)
            | (Inr oc, tr3) \<Rightarrow> (Inr (Some oc), labels_of v1, tr3))"
  using assms by (simp add: checkBlameParents_def run_def Let_def)

lemma checkBlameParents_outcome:
  assumes "checkBlameParents env repo blamedRev0 blamed labels0 startRepo endRepo tr
             = (Inr (Some oc), labels', tr')"
    and "hg_run env tr (parent_command repo blamedRev0) = Inr out"
  shows "\<exists>v1 tr2.
           check_parents env repo blamed startRepo endRepo (parents_of_output out)
             \<lparr>labels_of = labels0, bisectLied = False, missedCommonAncestor = False\<rparr>
             (tr @ [Run (parent_command repo blamedRev0)]) = (None, v1, tr2) \<and>
           explain env repo (parents_of_output out) v1 tr2 = (Inr oc, tr') \<and>
           labels' = labels_of v1"
proof -
  have len: "length (parents_of_output out) \<noteq> 1"
    using assms by (auto simp: checkBlameParents_def run_def Let_def)
  obtain e1 v1 tr2 where cp:
    "check_parents env repo blamed startRepo endRepo (parents_of_output out)
       \<lparr>labels_of = labels0, bisectLied = False, missedCommonAncestor = False\<rparr>
       (tr @ [Run (parent_command repo blamedRev0)]) = (e1, v1, tr2)"
    using prod_cases3 by blast
  obtain r3 tr3 where ex: "explain env repo (parents_of_output out) v1 tr2 = (r3, tr3)"
    using prod.exhaust by blast
  have unfolded: "checkBlameParents env repo blamedRev0 blamed labels0 startRepo endRepo tr =
      (case e1 of
         Some e \<Rightarrow> (Inl e, labels_of v1, tr2)
       | None \<Rightarrow> (case r3 of Inl e \<Rightarrow> (Inl e, labels_of v1, tr3)
                             | Inr oc \<Rightarrow> (Inr (Some oc), labels_of v1, tr3)))"
    using assms(2) len
    by (simp add: checkBlameParents_def run_def Let_def cp ex split: option.split)
  have "e1 = None \<and> r3 = Inr oc \<and> labels' = labels_of v1 \<and> tr' = tr3"
    using assms(1) unfolding unfolded by (cases e1; cases r3) auto
  then show ?thesis
    using cp ex by blast
qed

lemma explain_trace:
  assumes "explain env repo ps v tr = (r, tr')"
  shows "prefix tr tr'"
proof (cases "bisectLied v \<and> missedCommonAncestor v \<and> 2 \<le> length ps")
  case True
  then show ?thesis
    using assms unfolding explain_missed_range [of v ps env repo tr, OF True [THEN conjunct1]
        True [THEN conjunct2, THEN conjunct1] True [THEN conjunct2, THEN conjunct2]]
    by (cases "testRev env tr (findCommonAncestor env repo (ps ! 0) (ps ! 1))") auto
next
  case False
  then have "tr' = tr"
    using assms
    by (cases ps; cases "tl ps") (auto simp: explain_def split: if_splits)
  then show ?thesis by simp
qed

text \<open>
  With a number of parents other than one the function runs the loop, on every path:
  the labels it leaves are those the loop left, and its trace extends the loop's.
\<close>

lemma checkBlameParents_runs_loop:
  assumes "hg_run env tr (parent_command repo blamedRev0) = Inr out"
    and "length (parents_of_output out) \<noteq> 1"
    and "check_parents env repo blamed startRepo endRepo (parents_of_output out)
           \<lparr>labels_of = labels0, bisectLied = False, missedCommonAncestor = False\<rparr>
           (tr @ [Run (parent_command repo blamedRev0)]) = (e1, v1, tr2)"
  shows "fst (snd (checkBlameParents env repo blamedRev0 blamed labels0 startRepo endRepo tr))
           = labels_of v1 \<and>
         prefix tr2
           (snd (snd (checkBlameParents env repo blamedRev0 blamed labels0 startRepo endRepo tr)))"
proof -
  obtain r3 tr3 where ex: "explain env repo (parents_of_output out) v1 tr2 = (r3, tr3)"
    using prod.exhaust by blast
  from explain_trace [OF ex] have ext: "prefix tr2 tr3" .
  have unfolded: "checkBlameParents env repo blamedRev0 blamed labels0 startRepo endRepo tr =
      (case e1 of
         Some e \<Rightarrow> (Inl e, labels_of v1, tr2)
       | None \<Rightarrow> (case r3 of Inl e \<Rightarrow> (Inl e, labels_of v1, tr3)
                             | Inr oc \<Rightarrow> (Inr (Some oc), labels_of v1, tr3)))"
    using assms(1,2)
    by (simp add: checkBlameParents_def run_def Let_def assms(3) ex split: option.split)
  show ?thesis
    unfolding unfolded using ext by (cases e1; cases r3) simp_all
qed

text \<open>
  C6, as the code has it. The blamed revision does not have exactly one parent, its
  verdict is \<^verbatim>\<open>good\<close> or \<^verbatim>\<open>bad\<close>, and every parent has a verdict that is \<^verbatim>\<open>good\<close>,
  \<^verbatim>\<open>bad\<close> or \<^verbatim>\<open>skip\<close>: the label recorded for it before the call or, when none is
  recorded, the label the oracle gives it. Then the loop over the parents of
  \<^verbatim>\<open>checkBlameParents\<close> ends without an exception, every parent carries its verdict in
  the labels, and

  \<^item> \<^verbatim>\<open>bisectLied\<close> is set exactly when the verdict of some parent equals the blamed
    revision's;
  \<^item> \<^verbatim>\<open>missedCommonAncestor\<close> is set exactly when some parent without a recorded label
    is a descendant of neither endpoint, whatever its verdict turns out to be;
  \<^item> so a parent whose verdict is \<^verbatim>\<open>skip\<close> never sets \<^verbatim>\<open>bisectLied\<close> and never aborts
    the check, and it leaves \<^verbatim>\<open>missedCommonAncestor\<close> alone when its verdict was
    recorded before the call: both flags are what the other parents make them;
  \<^item> when no parent contradicts, the function reports that the merge itself introduced
    the regression;
  \<^item> when a parent contradicts, it reports a wrongly marked revision if
    \<^verbatim>\<open>missedCommonAncestor\<close> is not set, and otherwise tests the common ancestor of the
    first two parents and reports the missed range with that label.
\<close>

theorem parent_verdicts_decide_the_outcome:
  assumes "hg_run env tr (parent_command repo blamedRev0) = Inr out"
    and "length (parents_of_output out) \<noteq> 1"
    and "blamed = ''good'' \<or> blamed = ''bad''"
    and "\<forall>q\<in>set (parents_of_output out).
           (labels0 q = Some (verdict q) \<or>
            (labels0 q = None \<and> (\<forall>tr0. testRev env tr0 q = Inr (verdict q)))) \<and>
           (fst (verdict q) = ''good'' \<or> fst (verdict q) = ''bad'' \<or> fst (verdict q) = ''skip'')"
  shows "\<exists>v1 tr2.
           check_parents env repo blamed startRepo endRepo (parents_of_output out)
             \<lparr>labels_of = labels0, bisectLied = False, missedCommonAncestor = False\<rparr>
             (tr @ [Run (parent_command repo blamedRev0)]) = (None, v1, tr2) \<and>
           (\<forall>q\<in>set (parents_of_output out). labels_of v1 q = Some (verdict q)) \<and>
           bisectLied v1 = (\<exists>q\<in>set (parents_of_output out). fst (verdict q) = blamed) \<and>
           missedCommonAncestor v1 =
             (\<exists>q\<in>set (parents_of_output out). labels0 q = None \<and>
                \<not> isAncestor env repo startRepo q \<and> \<not> isAncestor env repo endRepo q) \<and>
           (\<forall>p\<in>set (parents_of_output out). fst (verdict p) = ''skip'' \<longrightarrow>
              bisectLied v1 = (\<exists>q\<in>set (parents_of_output out) - {p}. fst (verdict q) = blamed) \<and>
              (labels0 p \<noteq> None \<longrightarrow>
                 missedCommonAncestor v1 =
                   (\<exists>q\<in>set (parents_of_output out) - {p}. labels0 q = None \<and>
                      \<not> isAncestor env repo startRepo q \<and> \<not> isAncestor env repo endRepo q))) \<and>
           ((\<forall>q\<in>set (parents_of_output out). fst (verdict q) \<noteq> blamed) \<longrightarrow>
              checkBlameParents env repo blamedRev0 blamed labels0 startRepo endRepo tr
                = (Inr (Some IntroducedByMerge), labels_of v1, tr2)) \<and>
           ((\<exists>q\<in>set (parents_of_output out). fst (verdict q) = blamed) \<longrightarrow>
              fst (checkBlameParents env repo blamedRev0 blamed labels0 startRepo endRepo tr)
                \<noteq> Inr (Some IntroducedByMerge) \<and>
              (\<not> missedCommonAncestor v1 \<longrightarrow>
                 checkBlameParents env repo blamedRev0 blamed labels0 startRepo endRepo tr
                   = (Inr (Some MarkedForWrongReason), labels_of v1, tr2)) \<and>
              (missedCommonAncestor v1 \<longrightarrow>
                 fst (checkBlameParents env repo blamedRev0 blamed labels0 startRepo endRepo tr)
                   = (case testRev env tr2
                             (findCommonAncestor env repo (parents_of_output out ! 0)
                                (parents_of_output out ! 1)) of
                        Inl e \<Rightarrow> Inl e
                      | Inr l \<Rightarrow>
                          Inr (Some (RangeMissedParent
                                 (findCommonAncestor env repo (parents_of_output out ! 0)
                                    (parents_of_output out ! 1)) l)))))"
proof -
  from check_parents_steady [OF assms(3),
      of "parents_of_output out"
         "\<lparr>labels_of = labels0, bisectLied = False, missedCommonAncestor = False\<rparr>"
         verdict env repo startRepo endRepo "tr @ [Run (parent_command repo blamedRev0)]"]
    assms(4)
  obtain v1 tr2 where
    cp: "check_parents env repo blamed startRepo endRepo (parents_of_output out)
           \<lparr>labels_of = labels0, bisectLied = False, missedCommonAncestor = False\<rparr>
           (tr @ [Run (parent_command repo blamedRev0)]) = (None, v1, tr2)"
    and lab: "\<forall>q\<in>set (parents_of_output out). labels_of v1 q = Some (verdict q)"
    and lied: "bisectLied v1 = (\<exists>q\<in>set (parents_of_output out). fst (verdict q) = blamed)"
    by auto
  from check_parents_missed [OF cp] have
    missed: "missedCommonAncestor v1 =
             (\<exists>q\<in>set (parents_of_output out). labels0 q = None \<and>
                \<not> isAncestor env repo startRepo q \<and> \<not> isAncestor env repo endRepo q)"
    by simp
  have no_skip: "blamed \<noteq> ''skip''" using assms(3) by auto
  have skip: "bisectLied v1 = (\<exists>q\<in>set (parents_of_output out) - {p}. fst (verdict q) = blamed) \<and>
              (labels0 p \<noteq> None \<longrightarrow>
                 missedCommonAncestor v1 =
                   (\<exists>q\<in>set (parents_of_output out) - {p}. labels0 q = None \<and>
                      \<not> isAncestor env repo startRepo q \<and> \<not> isAncestor env repo endRepo q))"
    if "p \<in> set (parents_of_output out)" and "fst (verdict p) = ''skip''" for p
  proof -
    have "fst (verdict p) \<noteq> blamed" using that(2) no_skip by simp
    then have a: "bisectLied v1 =
                    (\<exists>q\<in>set (parents_of_output out) - {p}. fst (verdict q) = blamed)"
      unfolding lied by (rule bex_except)
    have b: "missedCommonAncestor v1 =
               (\<exists>q\<in>set (parents_of_output out) - {p}. labels0 q = None \<and>
                  \<not> isAncestor env repo startRepo q \<and> \<not> isAncestor env repo endRepo q)"
      if "labels0 p \<noteq> None"
      unfolding missed by (rule bex_except) (simp add: that)
    from a b show ?thesis by blast
  qed
  note whole = checkBlameParents_loop [OF assms(1,2) cp]
  have merge: "checkBlameParents env repo blamedRev0 blamed labels0 startRepo endRepo tr
                 = (Inr (Some IntroducedByMerge), labels_of v1, tr2)"
    if "\<forall>q\<in>set (parents_of_output out). fst (verdict q) \<noteq> blamed"
  proof -
    from that have "\<not> bisectLied v1" unfolding lied by blast
    then show ?thesis unfolding whole by (simp add: explain_merge)
  qed
  have contradicted:
    "fst (checkBlameParents env repo blamedRev0 blamed labels0 startRepo endRepo tr)
       \<noteq> Inr (Some IntroducedByMerge) \<and>
     (\<not> missedCommonAncestor v1 \<longrightarrow>
        checkBlameParents env repo blamedRev0 blamed labels0 startRepo endRepo tr
          = (Inr (Some MarkedForWrongReason), labels_of v1, tr2)) \<and>
     (missedCommonAncestor v1 \<longrightarrow>
        fst (checkBlameParents env repo blamedRev0 blamed labels0 startRepo endRepo tr)
          = (case testRev env tr2
                    (findCommonAncestor env repo (parents_of_output out ! 0)
                       (parents_of_output out ! 1)) of
               Inl e \<Rightarrow> Inl e
             | Inr l \<Rightarrow>
                 Inr (Some (RangeMissedParent
                        (findCommonAncestor env repo (parents_of_output out ! 0)
                           (parents_of_output out ! 1)) l))))"
    if "\<exists>q\<in>set (parents_of_output out). fst (verdict q) = blamed"
  proof -
    from that have b: "bisectLied v1" unfolding lied .
    from that have "parents_of_output out \<noteq> []" by auto
    with assms(2) have two: "2 \<le> length (parents_of_output out)"
      by (cases "parents_of_output out"; cases "tl (parents_of_output out)") auto
    show ?thesis
    proof (cases "missedCommonAncestor v1")
      case False
      then show ?thesis unfolding whole using b by (simp add: explain_wrong_reason)
    next
      case True
      show ?thesis
        unfolding whole explain_missed_range [OF b True two] using True
        by (cases "testRev env tr2
                     (findCommonAncestor env repo (parents_of_output out ! 0)
                        (parents_of_output out ! 1))") simp_all
    qed
  qed
  from cp lab lied missed skip merge contradicted show ?thesis by blast
qed

theorem parent_verdicts_witness:
  "checkBlameParents merge_env ''/repo'' ''m4'' ''bad'' session_labels ''s3'' ''e5'' []
     = (Inr (Some IntroducedByMerge), session_labels(''p1'' \<mapsto> (''good'', ''Exit code 0'')),
        [Run (parent_command ''/repo'' ''m4''), TestRev ''p1'']) \<and>
   checkBlameParents merge_env ''/repo'' ''m4'' ''bad'' skipped_labels ''s3'' ''e5'' []
     = (Inr (Some MarkedForWrongReason), skipped_labels, [Run (parent_command ''/repo'' ''m4'')]) \<and>
   parents_of_output ''p1,q2,'' = [''p1'', ''q2''] \<and>
   skipped_labels ''p1'' = Some (''skip'', ''compilation failed'') \<and>
   skipped_labels ''q2'' = Some (''bad'', ''Negative exit code -11'')"
proof -
  have run: "hg_run merge_env [] (parent_command ''/repo'' ''m4'') = Inr ''p1,q2,''"
    by (simp add: merge_env_def)
  have ps: "parents_of_output ''p1,q2,'' = [''p1'', ''q2'']"
    by (simp add: parents_of_output_def)
  have len: "length (parents_of_output ''p1,q2,'') \<noteq> 1"
    unfolding ps by simp
  have blamed: "''bad'' = ''good'' \<or> ''bad'' = ''bad''" by simp
  have answer: "testRev merge_env tr0 q = Inr (''good'', ''Exit code 0'')" for tr0 q
    by (simp add: merge_env_def)
  have recorded: "session_labels ''p1'' = None"
    "session_labels ''q2'' = Some (''good'', ''Exit code 0'')"
    "skipped_labels ''p1'' = Some (''skip'', ''compilation failed'')"
    "skipped_labels ''q2'' = Some (''bad'', ''Negative exit code -11'')"
    by (simp_all add: session_labels_def skipped_labels_def lied_labels_def)
  have loop1: "check_parents merge_env ''/repo'' ''bad'' ''s3'' ''e5'' [''p1'', ''q2'']
       \<lparr>labels_of = session_labels, bisectLied = False, missedCommonAncestor = False\<rparr>
       ([] @ [Run (parent_command ''/repo'' ''m4'')])
     = (None,
        \<lparr>labels_of = session_labels(''p1'' \<mapsto> (''good'', ''Exit code 0'')), bisectLied = False,
         missedCommonAncestor = True\<rparr>,
        [Run (parent_command ''/repo'' ''m4''), TestRev ''p1''])"
    by (simp add: ensure_tested_def call_testRev_def compare_label_def opposite_def Let_def
          merge_env_def session_labels_def history_ancestors_def)
  have loop2: "check_parents merge_env ''/repo'' ''bad'' ''s3'' ''e5'' [''p1'', ''q2'']
       \<lparr>labels_of = skipped_labels, bisectLied = False, missedCommonAncestor = False\<rparr>
       ([] @ [Run (parent_command ''/repo'' ''m4'')])
     = (None,
        \<lparr>labels_of = skipped_labels, bisectLied = True, missedCommonAncestor = False\<rparr>,
        [Run (parent_command ''/repo'' ''m4'')])"
    by (simp add: ensure_tested_def compare_label_def opposite_def recorded)
  have one: "checkBlameParents merge_env ''/repo'' ''m4'' ''bad'' session_labels ''s3'' ''e5'' []
     = (Inr (Some IntroducedByMerge), session_labels(''p1'' \<mapsto> (''good'', ''Exit code 0'')),
        [Run (parent_command ''/repo'' ''m4''), TestRev ''p1''])"
    using parent_verdicts_decide_the_outcome [OF run len blamed,
        of session_labels "\<lambda>q. (''good'', ''Exit code 0'')" "''s3''" "''e5''"]
      answer recorded(1,2)
    unfolding ps loop1 by simp
  have two: "checkBlameParents merge_env ''/repo'' ''m4'' ''bad'' skipped_labels ''s3'' ''e5'' []
     = (Inr (Some MarkedForWrongReason), skipped_labels, [Run (parent_command ''/repo'' ''m4'')])"
    using parent_verdicts_decide_the_outcome [OF run len blamed,
        of skipped_labels
           "\<lambda>q. if q = ''p1'' then (''skip'', ''compilation failed'')
                 else (''bad'', ''Negative exit code -11'')" "''s3''" "''e5''"]
      recorded(3,4)
    unfolding ps loop2 by simp
  from one two ps recorded(3,4) show ?thesis by simp
qed

text \<open>
  C6 as the spec states it fails for a parent that was never tested: the oracle skips
  \<open>p1\<close>, which is a descendant of neither endpoint of the session, and the loop pass for
  \<open>p1\<close> sets \<^verbatim>\<open>missedCommonAncestor\<close>. The other parent \<open>q2\<close> has a recorded label, so no
  pass but the one for the skipped parent can have set that flag; with \<open>q2\<close> recorded
  bad, like the blamed revision, the flag decides the report.
\<close>

theorem skipped_parent_sets_missed_flag:
  "testRev skip_merge_env [Run (parent_command ''/repo'' ''m4'')] ''p1''
     = Inr (''skip'', ''compilation failed'') \<and>
   lied_labels ''p1'' = None \<and>
   lied_labels ''q2'' = Some (''bad'', ''Negative exit code -11'') \<and>
   check_parents skip_merge_env ''/repo'' ''bad'' ''s3'' ''e5'' [''p1'']
       \<lparr>labels_of = lied_labels, bisectLied = False, missedCommonAncestor = False\<rparr>
       [Run (parent_command ''/repo'' ''m4'')]
     = (None,
        \<lparr>labels_of = lied_labels(''p1'' \<mapsto> (''skip'', ''compilation failed'')),
         bisectLied = False, missedCommonAncestor = True\<rparr>,
        [Run (parent_command ''/repo'' ''m4''), TestRev ''p1'']) \<and>
   checkBlameParents skip_merge_env ''/repo'' ''m4'' ''bad'' lied_labels ''s3'' ''e5'' []
     = (Inr (Some (RangeMissedParent ''r0'' (''skip'', ''compilation failed''))),
        lied_labels(''p1'' \<mapsto> (''skip'', ''compilation failed'')),
        [Run (parent_command ''/repo'' ''m4''), TestRev ''p1'', TestRev ''r0''])"
  by (simp add: checkBlameParents_def run_def parents_of_output_def explain_def
        ensure_tested_def call_testRev_def compare_label_def opposite_def Let_def
        skip_merge_env_def merge_env_def lied_labels_def session_labels_def
        history_ancestors_def)

text \<open>
  C7. \<^verbatim>\<open>checkBlameParents\<close> never overwrites a label: on every path, also when an
  exception ends the call, each revision that had a label keeps it, and every revision
  that gained one is a parent of the blamed revision that had none. (The label of the
  common ancestor is logged and not stored, so no other entry is added.)
\<close>

theorem labels_only_grow:
  assumes "checkBlameParents env repo blamedRev0 blamed labels0 startRepo endRepo tr
             = (res, labels', tr')"
  shows "(\<forall>r l. labels0 r = Some l \<longrightarrow> labels' r = Some l) \<and>
         (\<forall>r. labels0 r = None \<longrightarrow> labels' r \<noteq> None \<longrightarrow>
            (\<exists>out. hg_run env tr (parent_command repo blamedRev0) = Inr out \<and>
                   r \<in> set (parents_of_output out)))"
proof (cases "hg_run env tr (parent_command repo blamedRev0)")
  case (Inl e)
  then have "labels' = labels0"
    using assms by (simp add: checkBlameParents_def run_def)
  then show ?thesis by simp
next
  case (Inr out)
  show ?thesis
  proof (cases "length (parents_of_output out) = 1")
    case True
    then have "labels' = labels0"
      using assms Inr by (simp add: checkBlameParents_def run_def Let_def)
    then show ?thesis by simp
  next
    case False
    obtain e1 v1 tr2 where cp:
      "check_parents env repo blamed startRepo endRepo (parents_of_output out)
         \<lparr>labels_of = labels0, bisectLied = False, missedCommonAncestor = False\<rparr>
         (tr @ [Run (parent_command repo blamedRev0)]) = (e1, v1, tr2)"
      using prod_cases3 by blast
    obtain r3 tr3 where ex: "explain env repo (parents_of_output out) v1 tr2 = (r3, tr3)"
      using prod.exhaust by blast
    have "checkBlameParents env repo blamedRev0 blamed labels0 startRepo endRepo tr =
      (case e1 of
         Some e \<Rightarrow> (Inl e, labels_of v1, tr2)
       | None \<Rightarrow> (case r3 of Inl e \<Rightarrow> (Inl e, labels_of v1, tr3)
                             | Inr oc \<Rightarrow> (Inr (Some oc), labels_of v1, tr3)))"
      using Inr False
      by (simp add: checkBlameParents_def run_def Let_def cp ex split: option.split)
    then have lb: "labels' = labels_of v1"
      using assms by (cases e1; cases r3) auto
    from check_parents_frame [OF cp]
    have le: "labels0 \<subseteq>\<^sub>m labels_of v1"
      and dm: "dom (labels_of v1) \<subseteq> dom labels0 \<union> set (parents_of_output out)"
      by simp_all
    have keep: "labels_of v1 r = Some l" if "labels0 r = Some l" for r l
    proof -
      from that have "r \<in> dom labels0" by (rule domI)
      with le have "labels0 r = labels_of v1 r" unfolding map_le_def by blast
      with that show ?thesis by simp
    qed
    have new: "r \<in> set (parents_of_output out)"
      if "labels0 r = None" and "labels_of v1 r \<noteq> None" for r
    proof -
      from that(2) have "r \<in> dom (labels_of v1)" by (simp add: domIff)
      with dm have "r \<in> dom labels0 \<or> r \<in> set (parents_of_output out)" by blast
      moreover from that(1) have "r \<notin> dom labels0" by (simp add: domIff)
      ultimately show ?thesis by blast
    qed
    from keep new lb Inr show ?thesis by blast
  qed
qed

theorem labels_only_grow_witness:
  "fst (snd (checkBlameParents merge_env ''/repo'' ''m4'' ''bad'' session_labels ''s3'' ''e5'' []))
     = session_labels(''p1'' \<mapsto> (''good'', ''Exit code 0'')) \<and>
   session_labels ''p1'' = None \<and>
   session_labels ''q2'' = Some (''good'', ''Exit code 0'') \<and>
   ''p1'' \<in> set (parents_of_output ''p1,q2,'')"
proof -
  have whole: "checkBlameParents merge_env ''/repo'' ''m4'' ''bad'' session_labels ''s3'' ''e5'' []
     = (Inr (Some IntroducedByMerge), session_labels(''p1'' \<mapsto> (''good'', ''Exit code 0'')),
        [Run (parent_command ''/repo'' ''m4''), TestRev ''p1''])"
    by (simp add: checkBlameParents_def run_def merge_env_def parents_of_output_def Let_def
          ensure_tested_def call_testRev_def compare_label_def opposite_def explain_def
          session_labels_def history_ancestors_def parent_command_def)
  have stored: "fst (snd (checkBlameParents merge_env ''/repo'' ''m4'' ''bad'' session_labels
                            ''s3'' ''e5'' []))
                  = session_labels(''p1'' \<mapsto> (''good'', ''Exit code 0''))"
    by (simp add: whole)
  have before: "session_labels ''p1'' = None"
    "session_labels ''q2'' = Some (''good'', ''Exit code 0'')"
    by (simp_all add: session_labels_def)
  have parent: "''p1'' \<in> set (parents_of_output ''p1,q2,'')"
    by (simp add: parents_of_output_def)
  show ?thesis
    using labels_only_grow [OF whole] stored before parent by blast
qed

text \<open>
  C8, as the code has it. With exactly one parent \<^verbatim>\<open>checkBlameParents\<close> returns at once
  and tests and records nothing. Otherwise, whenever the loop over the parents ends
  without an exception, \<^verbatim>\<open>missedCommonAncestor\<close> is set exactly when some parent with
  no recorded label is a descendant of neither endpoint (neither the original start nor
  the original end is an ancestor of it), and every parent that had no recorded label
  was handed to the oracle during the call and carries the label the oracle returned.
  The same holds of every call that reaches its report, where the flag shows in the
  report: a wrongly marked revision is reported only with the flag unset, a missed range
  only with the flag set. The loop does end without an exception when the blamed verdict
  is \<^verbatim>\<open>good\<close> or \<^verbatim>\<open>bad\<close> and every parent has a verdict that is \<^verbatim>\<open>good\<close>, \<^verbatim>\<open>bad\<close> or
  \<^verbatim>\<open>skip\<close>, recorded or given by the oracle. And with a number of parents other than
  one the function does run that loop, on every path: the labels it leaves are the
  labels the loop left, and its trace extends the loop's.
\<close>

theorem untested_parent_is_tested:
  assumes "hg_run env tr (parent_command repo blamedRev0) = Inr out"
  shows "(length (parents_of_output out) = 1 \<longrightarrow>
            checkBlameParents env repo blamedRev0 blamed labels0 startRepo endRepo tr
              = (Inr None, labels0, tr @ [Run (parent_command repo blamedRev0)])) \<and>
         (\<forall>v1 tr2.
            check_parents env repo blamed startRepo endRepo (parents_of_output out)
              \<lparr>labels_of = labels0, bisectLied = False, missedCommonAncestor = False\<rparr>
              (tr @ [Run (parent_command repo blamedRev0)]) = (None, v1, tr2) \<longrightarrow>
            missedCommonAncestor v1 =
              (\<exists>q\<in>set (parents_of_output out). labels0 q = None \<and>
                 \<not> isAncestor env repo startRepo q \<and> \<not> isAncestor env repo endRepo q) \<and>
            (\<forall>q\<in>set (parents_of_output out). labels0 q = None \<longrightarrow>
               (\<exists>tr0 l. prefix (tr @ [Run (parent_command repo blamedRev0)]) tr0 \<and>
                        prefix (tr0 @ [TestRev q]) tr2 \<and>
                        testRev env tr0 q = Inr l \<and> labels_of v1 q = Some l))) \<and>
         (\<forall>oc labels' tr'.
            checkBlameParents env repo blamedRev0 blamed labels0 startRepo endRepo tr
              = (Inr (Some oc), labels', tr') \<longrightarrow>
            (\<forall>q\<in>set (parents_of_output out). labels0 q = None \<longrightarrow>
               (\<exists>tr0 l. prefix (tr @ [Run (parent_command repo blamedRev0)]) tr0 \<and>
                        prefix (tr0 @ [TestRev q]) tr' \<and>
                        testRev env tr0 q = Inr l \<and> labels' q = Some l)) \<and>
            (oc = MarkedForWrongReason \<longrightarrow>
               \<not> (\<exists>q\<in>set (parents_of_output out). labels0 q = None \<and>
                     \<not> isAncestor env repo startRepo q \<and> \<not> isAncestor env repo endRepo q)) \<and>
            (\<forall>ca l. oc = RangeMissedParent ca l \<longrightarrow>
               (\<exists>q\<in>set (parents_of_output out). labels0 q = None \<and>
                  \<not> isAncestor env repo startRepo q \<and> \<not> isAncestor env repo endRepo q))) \<and>
         ((blamed = ''good'' \<or> blamed = ''bad'') \<longrightarrow>
          (\<forall>q\<in>set (parents_of_output out).
             (labels0 q = Some (verdict q) \<or>
              (labels0 q = None \<and> (\<forall>tr0. testRev env tr0 q = Inr (verdict q)))) \<and>
             (fst (verdict q) = ''good'' \<or> fst (verdict q) = ''bad'' \<or>
              fst (verdict q) = ''skip'')) \<longrightarrow>
          (\<exists>v1 tr2.
             check_parents env repo blamed startRepo endRepo (parents_of_output out)
               \<lparr>labels_of = labels0, bisectLied = False, missedCommonAncestor = False\<rparr>
               (tr @ [Run (parent_command repo blamedRev0)]) = (None, v1, tr2))) \<and>
         (length (parents_of_output out) \<noteq> 1 \<longrightarrow>
          (\<forall>e1 v1 tr2.
             check_parents env repo blamed startRepo endRepo (parents_of_output out)
               \<lparr>labels_of = labels0, bisectLied = False, missedCommonAncestor = False\<rparr>
               (tr @ [Run (parent_command repo blamedRev0)]) = (e1, v1, tr2) \<longrightarrow>
             fst (snd (checkBlameParents env repo blamedRev0 blamed labels0 startRepo endRepo tr))
               = labels_of v1 \<and>
             prefix tr2
               (snd (snd (checkBlameParents env repo blamedRev0 blamed labels0 startRepo endRepo
                            tr)))))"
proof -
  have single: "checkBlameParents env repo blamedRev0 blamed labels0 startRepo endRepo tr
              = (Inr None, labels0, tr @ [Run (parent_command repo blamedRev0)])"
    if "length (parents_of_output out) = 1"
    using checkBlameParents_single [OF assms that] .
  have loop: "missedCommonAncestor v1 =
              (\<exists>q\<in>set (parents_of_output out). labels0 q = None \<and>
                 \<not> isAncestor env repo startRepo q \<and> \<not> isAncestor env repo endRepo q) \<and>
            (\<forall>q\<in>set (parents_of_output out). labels0 q = None \<longrightarrow>
               (\<exists>tr0 l. prefix (tr @ [Run (parent_command repo blamedRev0)]) tr0 \<and>
                        prefix (tr0 @ [TestRev q]) tr2 \<and>
                        testRev env tr0 q = Inr l \<and> labels_of v1 q = Some l))"
    if cp: "check_parents env repo blamed startRepo endRepo (parents_of_output out)
              \<lparr>labels_of = labels0, bisectLied = False, missedCommonAncestor = False\<rparr>
              (tr @ [Run (parent_command repo blamedRev0)]) = (None, v1, tr2)"
    for v1 tr2
  proof -
    from check_parents_missed [OF cp] have
      a: "missedCommonAncestor v1 =
              (\<exists>q\<in>set (parents_of_output out). labels0 q = None \<and>
                 \<not> isAncestor env repo startRepo q \<and> \<not> isAncestor env repo endRepo q)"
      by simp
    have b: "\<exists>tr0 l. prefix (tr @ [Run (parent_command repo blamedRev0)]) tr0 \<and>
                        prefix (tr0 @ [TestRev q]) tr2 \<and>
                        testRev env tr0 q = Inr l \<and> labels_of v1 q = Some l"
      if "q \<in> set (parents_of_output out)" and "labels0 q = None" for q
      using check_parents_tested [OF cp that(1)] that(2) by simp
    from a b show ?thesis by blast
  qed
  have reported:
    "(\<forall>q\<in>set (parents_of_output out). labels0 q = None \<longrightarrow>
               (\<exists>tr0 l. prefix (tr @ [Run (parent_command repo blamedRev0)]) tr0 \<and>
                        prefix (tr0 @ [TestRev q]) tr' \<and>
                        testRev env tr0 q = Inr l \<and> labels' q = Some l)) \<and>
            (oc = MarkedForWrongReason \<longrightarrow>
               \<not> (\<exists>q\<in>set (parents_of_output out). labels0 q = None \<and>
                     \<not> isAncestor env repo startRepo q \<and> \<not> isAncestor env repo endRepo q)) \<and>
            (\<forall>ca l. oc = RangeMissedParent ca l \<longrightarrow>
               (\<exists>q\<in>set (parents_of_output out). labels0 q = None \<and>
                  \<not> isAncestor env repo startRepo q \<and> \<not> isAncestor env repo endRepo q))"
    if call: "checkBlameParents env repo blamedRev0 blamed labels0 startRepo endRepo tr
              = (Inr (Some oc), labels', tr')"
    for oc labels' tr'
  proof -
    from checkBlameParents_outcome [OF call assms] obtain v1 tr2 where
      cp: "check_parents env repo blamed startRepo endRepo (parents_of_output out)
             \<lparr>labels_of = labels0, bisectLied = False, missedCommonAncestor = False\<rparr>
             (tr @ [Run (parent_command repo blamedRev0)]) = (None, v1, tr2)"
      and ex: "explain env repo (parents_of_output out) v1 tr2 = (Inr oc, tr')"
      and lb: "labels' = labels_of v1"
      by blast
    from explain_outcome [OF ex] have
      wrong: "oc = MarkedForWrongReason \<longrightarrow> \<not> missedCommonAncestor v1"
      and range: "\<forall>ca l. oc = RangeMissedParent ca l \<longrightarrow> missedCommonAncestor v1"
      and ext: "prefix tr2 tr'"
      by simp_all
    from loop [OF cp] have
      flag: "missedCommonAncestor v1 =
              (\<exists>q\<in>set (parents_of_output out). labels0 q = None \<and>
                 \<not> isAncestor env repo startRepo q \<and> \<not> isAncestor env repo endRepo q)"
      and tested: "\<forall>q\<in>set (parents_of_output out). labels0 q = None \<longrightarrow>
               (\<exists>tr0 l. prefix (tr @ [Run (parent_command repo blamedRev0)]) tr0 \<and>
                        prefix (tr0 @ [TestRev q]) tr2 \<and>
                        testRev env tr0 q = Inr l \<and> labels_of v1 q = Some l)"
      by simp_all
    have t: "\<exists>tr0 l. prefix (tr @ [Run (parent_command repo blamedRev0)]) tr0 \<and>
                        prefix (tr0 @ [TestRev q]) tr' \<and>
                        testRev env tr0 q = Inr l \<and> labels' q = Some l"
      if "q \<in> set (parents_of_output out)" and "labels0 q = None" for q
    proof -
      from tested that obtain tr0 l where
        r: "prefix (tr @ [Run (parent_command repo blamedRev0)]) tr0"
           "prefix (tr0 @ [TestRev q]) tr2" "testRev env tr0 q = Inr l"
           "labels_of v1 q = Some l"
        by blast
      from r(2) ext have "prefix (tr0 @ [TestRev q]) tr'" by (rule prefix_order.trans)
      with r(1,3,4) show ?thesis unfolding lb by blast
    qed
    from t wrong range show ?thesis unfolding flag by blast
  qed
  have ends: "\<exists>v1 tr2.
             check_parents env repo blamed startRepo endRepo (parents_of_output out)
               \<lparr>labels_of = labels0, bisectLied = False, missedCommonAncestor = False\<rparr>
               (tr @ [Run (parent_command repo blamedRev0)]) = (None, v1, tr2)"
    if "blamed = ''good'' \<or> blamed = ''bad''"
      and "\<forall>q\<in>set (parents_of_output out).
             (labels0 q = Some (verdict q) \<or>
              (labels0 q = None \<and> (\<forall>tr0. testRev env tr0 q = Inr (verdict q)))) \<and>
             (fst (verdict q) = ''good'' \<or> fst (verdict q) = ''bad'' \<or>
              fst (verdict q) = ''skip'')"
    using check_parents_steady [OF that(1),
        of "parents_of_output out"
           "\<lparr>labels_of = labels0, bisectLied = False, missedCommonAncestor = False\<rparr>"
           verdict env repo startRepo endRepo "tr @ [Run (parent_command repo blamedRev0)]"]
      that(2)
    by auto
  have runs: "fst (snd (checkBlameParents env repo blamedRev0 blamed labels0 startRepo endRepo tr))
               = labels_of v1 \<and>
             prefix tr2
               (snd (snd (checkBlameParents env repo blamedRev0 blamed labels0 startRepo endRepo
                            tr)))"
    if "length (parents_of_output out) \<noteq> 1"
      and "check_parents env repo blamed startRepo endRepo (parents_of_output out)
               \<lparr>labels_of = labels0, bisectLied = False, missedCommonAncestor = False\<rparr>
               (tr @ [Run (parent_command repo blamedRev0)]) = (e1, v1, tr2)"
    for e1 v1 tr2
    using checkBlameParents_runs_loop [OF assms that] .
  show ?thesis
    apply (intro conjI)
    subgoal using single by blast
    subgoal using loop by blast
    subgoal using reported by blast
    subgoal using ends by blast
    subgoal using runs by blast
    done
qed

theorem untested_parent_witness:
  "checkBlameParents merge_env ''/repo'' ''m4'' ''bad'' lied_labels ''s3'' ''e5'' []
     = (Inr (Some (RangeMissedParent ''r0'' (''good'', ''Exit code 0''))),
        lied_labels(''p1'' \<mapsto> (''good'', ''Exit code 0'')),
        [Run (parent_command ''/repo'' ''m4''), TestRev ''p1'', TestRev ''r0'']) \<and>
   parents_of_output ''p1,q2,'' = [''p1'', ''q2''] \<and>
   lied_labels ''p1'' = None \<and>
   \<not> isAncestor merge_env ''/repo'' ''s3'' ''p1'' \<and> \<not> isAncestor merge_env ''/repo'' ''e5'' ''p1'' \<and>
   (\<exists>tr0 l. prefix ([] @ [Run (parent_command ''/repo'' ''m4'')]) tr0 \<and>
            prefix (tr0 @ [TestRev ''p1''])
              [Run (parent_command ''/repo'' ''m4''), TestRev ''p1'', TestRev ''r0''] \<and>
            testRev merge_env tr0 ''p1'' = Inr l \<and>
            (lied_labels(''p1'' \<mapsto> (''good'', ''Exit code 0''))) ''p1'' = Some l) \<and>
   (\<exists>q\<in>set (parents_of_output ''p1,q2,''). lied_labels q = None \<and>
      \<not> isAncestor merge_env ''/repo'' ''s3'' q \<and> \<not> isAncestor merge_env ''/repo'' ''e5'' q) \<and>
   (\<exists>v1 tr2.
      check_parents merge_env ''/repo'' ''bad'' ''s3'' ''e5'' (parents_of_output ''p1,q2,'')
        \<lparr>labels_of = lied_labels, bisectLied = False, missedCommonAncestor = False\<rparr>
        ([] @ [Run (parent_command ''/repo'' ''m4'')]) = (None, v1, tr2) \<and>
      missedCommonAncestor v1) \<and>
   checkBlameParents single_parent_env ''/repo'' ''m4'' ''bad'' lied_labels ''s3'' ''e5'' []
     = (Inr None, lied_labels, [] @ [Run (parent_command ''/repo'' ''m4'')]) \<and>
   parents_of_output ''p1,'' = [''p1'']"
proof -
  have run: "hg_run merge_env [] (parent_command ''/repo'' ''m4'') = Inr ''p1,q2,''"
    by (simp add: merge_env_def)
  have ps: "parents_of_output ''p1,q2,'' = [''p1'', ''q2'']"
    by (simp add: parents_of_output_def)
  have untested: "lied_labels ''p1'' = None"
    by (simp add: lied_labels_def session_labels_def)
  have unrelated: "\<not> isAncestor merge_env ''/repo'' ''s3'' ''p1''"
    "\<not> isAncestor merge_env ''/repo'' ''e5'' ''p1''"
    by (simp_all add: merge_env_def history_ancestors_def)
  have call: "checkBlameParents merge_env ''/repo'' ''m4'' ''bad'' lied_labels ''s3'' ''e5'' []
     = (Inr (Some (RangeMissedParent ''r0'' (''good'', ''Exit code 0''))),
        lied_labels(''p1'' \<mapsto> (''good'', ''Exit code 0'')),
        [Run (parent_command ''/repo'' ''m4''), TestRev ''p1'', TestRev ''r0''])"
    by (simp add: checkBlameParents_def run_def parents_of_output_def explain_def
          ensure_tested_def call_testRev_def compare_label_def opposite_def Let_def
          merge_env_def lied_labels_def session_labels_def history_ancestors_def)
  have p1: "''p1'' \<in> set (parents_of_output ''p1,q2,'')"
    unfolding ps by simp
  note merge = untested_parent_is_tested [OF run, of "''bad''" lied_labels "''s3''" "''e5''"
      "\<lambda>q. if q = ''q2'' then (''bad'', ''Negative exit code -11'')
            else (''good'', ''Exit code 0'')"]
  note reported = merge [THEN conjunct2, THEN conjunct2, THEN conjunct1, rule_format, OF call]
  from reported [THEN conjunct1, rule_format, OF p1 untested]
  have tested: "\<exists>tr0 l. prefix ([] @ [Run (parent_command ''/repo'' ''m4'')]) tr0 \<and>
            prefix (tr0 @ [TestRev ''p1''])
              [Run (parent_command ''/repo'' ''m4''), TestRev ''p1'', TestRev ''r0''] \<and>
            testRev merge_env tr0 ''p1'' = Inr l \<and>
            (lied_labels(''p1'' \<mapsto> (''good'', ''Exit code 0''))) ''p1'' = Some l" .
  from reported [THEN conjunct2, THEN conjunct2, rule_format, OF refl]
  have flag: "\<exists>q\<in>set (parents_of_output ''p1,q2,''). lied_labels q = None \<and>
      \<not> isAncestor merge_env ''/repo'' ''s3'' q \<and> \<not> isAncestor merge_env ''/repo'' ''e5'' q" .
  have verdicts: "\<forall>q\<in>set (parents_of_output ''p1,q2,'').
      (lied_labels q = Some (if q = ''q2'' then (''bad'', ''Negative exit code -11'')
                             else (''good'', ''Exit code 0'')) \<or>
       (lied_labels q = None \<and>
        (\<forall>tr0. testRev merge_env tr0 q
                 = Inr (if q = ''q2'' then (''bad'', ''Negative exit code -11'')
                        else (''good'', ''Exit code 0''))))) \<and>
      (fst (if q = ''q2'' then (''bad'', ''Negative exit code -11'')
            else (''good'', ''Exit code 0'')) = ''good'' \<or>
       fst (if q = ''q2'' then (''bad'', ''Negative exit code -11'')
            else (''good'', ''Exit code 0'')) = ''bad'' \<or>
       fst (if q = ''q2'' then (''bad'', ''Negative exit code -11'')
            else (''good'', ''Exit code 0'')) = ''skip'')"
    unfolding ps by (simp add: lied_labels_def session_labels_def merge_env_def)
  have blamed: "''bad'' = ''good'' \<or> ''bad'' = ''bad''" by simp
  from merge [THEN conjunct2, THEN conjunct2, THEN conjunct2, THEN conjunct1, THEN mp,
      OF blamed, THEN mp, OF verdicts]
  obtain v1 tr2 where
    cp: "check_parents merge_env ''/repo'' ''bad'' ''s3'' ''e5'' (parents_of_output ''p1,q2,'')
        \<lparr>labels_of = lied_labels, bisectLied = False, missedCommonAncestor = False\<rparr>
        ([] @ [Run (parent_command ''/repo'' ''m4'')]) = (None, v1, tr2)"
    by blast
  from merge [THEN conjunct2, THEN conjunct1, rule_format, OF cp, THEN conjunct1] flag
  have "missedCommonAncestor v1" by simp
  with cp have loop: "\<exists>v1 tr2.
      check_parents merge_env ''/repo'' ''bad'' ''s3'' ''e5'' (parents_of_output ''p1,q2,'')
        \<lparr>labels_of = lied_labels, bisectLied = False, missedCommonAncestor = False\<rparr>
        ([] @ [Run (parent_command ''/repo'' ''m4'')]) = (None, v1, tr2) \<and>
      missedCommonAncestor v1"
    by blast
  have run1: "hg_run single_parent_env [] (parent_command ''/repo'' ''m4'') = Inr ''p1,''"
    by (simp add: single_parent_env_def)
  have ps1: "parents_of_output ''p1,'' = [''p1'']"
    by (simp add: parents_of_output_def)
  have one: "length (parents_of_output ''p1,'') = 1"
    unfolding ps1 by simp
  from untested_parent_is_tested [OF run1, of "''bad''" lied_labels "''s3''" "''e5''",
      THEN conjunct1, THEN mp, OF one]
  have single: "checkBlameParents single_parent_env ''/repo'' ''m4'' ''bad'' lied_labels ''s3'' ''e5'' []
     = (Inr None, lied_labels, [] @ [Run (parent_command ''/repo'' ''m4'')])" .
  show ?thesis
    by (intro conjI) (fact call ps untested unrelated tested flag loop single ps1)+
qed

text \<open>
  C8 as the spec states it fails: \<open>p1\<close> has no label and is an ancestor of both the
  start \<open>s3\<close> and the end \<open>e5\<close>, so it is not a parent that "is not an ancestor of
  either" endpoint; the only other parent \<open>q2\<close> has a recorded label. The flag is set all
  the same, because \<open>p1\<close> is a descendant of neither endpoint, and the function reports
  the missed range.
\<close>

theorem missed_flag_set_for_an_ancestor_of_both_endpoints:
  "lied_labels ''p1'' = None \<and> lied_labels ''q2'' \<noteq> None \<and>
   isAncestor merge_env ''/repo'' ''p1'' ''s3'' \<and> isAncestor merge_env ''/repo'' ''p1'' ''e5'' \<and>
   \<not> isAncestor merge_env ''/repo'' ''s3'' ''p1'' \<and> \<not> isAncestor merge_env ''/repo'' ''e5'' ''p1'' \<and>
   check_parents merge_env ''/repo'' ''bad'' ''s3'' ''e5'' [''p1'', ''q2'']
       \<lparr>labels_of = lied_labels, bisectLied = False, missedCommonAncestor = False\<rparr>
       [Run (parent_command ''/repo'' ''m4'')]
     = (None,
        \<lparr>labels_of = lied_labels(''p1'' \<mapsto> (''good'', ''Exit code 0'')),
         bisectLied = True, missedCommonAncestor = True\<rparr>,
        [Run (parent_command ''/repo'' ''m4''), TestRev ''p1'']) \<and>
   checkBlameParents merge_env ''/repo'' ''m4'' ''bad'' lied_labels ''s3'' ''e5'' []
     = (Inr (Some (RangeMissedParent ''r0'' (''good'', ''Exit code 0''))),
        lied_labels(''p1'' \<mapsto> (''good'', ''Exit code 0'')),
        [Run (parent_command ''/repo'' ''m4''), TestRev ''p1'', TestRev ''r0''])"
  by (simp add: checkBlameParents_def run_def parents_of_output_def explain_def
        ensure_tested_def call_testRev_def compare_label_def opposite_def Let_def
        merge_env_def lied_labels_def session_labels_def history_ancestors_def)

end
